theory Spec2Isabelle
  imports Main "HOL-Library.Word"
begin

section \<open>The transport layer of \<open>lib/py/src/transport/TTransport.py\<close>\<close>

text \<open>
  A shallow embedding of the Python transport classes. Every method becomes a
  function that takes the object and returns the outcome together with the object
  after the call; a raised exception is the \<open>Inl\<close> of the outcome, and the object
  returned with it is the object as the exception leaves it.
\<close>

subsection \<open>Bytes, Python values and exceptions\<close>

type_synonym byte = "8 word"
type_synonym bytes = "byte list"

text \<open>
  The arguments that reach \<open>write\<close> are untyped in Python: \<open>BytesIO.write\<close> accepts a
  bytes object and raises \<open>TypeError\<close> on a \<open>str\<close> or on \<open>None\<close>.
\<close>

datatype pyobj = PyBytes bytes | PyStr string | PyNone

text \<open>The constants of \<open>TTransportException\<close>, in the order of the class body.\<close>

datatype ttype = UNKNOWN | NOT_OPEN | ALREADY_OPEN | TIMED_OUT | END_OF_FILE
  | NEGATIVE_SIZE | SIZE_LIMIT | INVALID_CLIENT_TYPE

text \<open>
  The two messages that \<open>TSaslClientTransport.open\<close> formats: the fixed text of the
  premature \<open>COMPLETE\<close>, and \<open>"Bad SASL negotiation status: %d (%s)" % (status, challenge)\<close>,
  kept as its two arguments.
\<close>

datatype message = ErroneousComplete | BadStatus nat pyobj

text \<open>
  The exceptions: the built-in \<open>EOFError\<close>, \<open>TypeError\<close>, \<open>ValueError\<close>,
  \<open>struct.error\<close> and \<open>UnicodeEncodeError\<close>, the \<open>TTransportException\<close> of this module
  with its \<open>type\<close> and message, and whatever an underlying channel or the security
  engine raises on its own (\<open>ChannelError\<close>).
\<close>

datatype error = EOFError | TypeError | ValueError | StructError | UnicodeEncodeError
  | TTransportException ttype message | ChannelError string

type_synonym ('a, 's) outcome = "(error + 'a) \<times> 's"

subsection \<open>\<open>io.BytesIO\<close>\<close>

text \<open>
  A \<open>BytesIO\<close> is its contents and its cursor. The buffers that the wrapping transports
  own are never closed, so the closed flag lives in \<open>TMemoryBuffer\<close>, the one class
  that calls \<open>close\<close> on its buffer.
\<close>

record BytesIO =
  getvalue :: bytes
  pos :: nat

definition BytesIO_new :: "bytes \<Rightarrow> BytesIO" where
  "BytesIO_new initial = \<lparr>getvalue = initial, pos = 0\<rparr>"

text \<open>\<open>read(sz)\<close>: up to \<open>sz\<close> bytes from the cursor; a negative \<open>sz\<close> reads to the end.\<close>

definition BytesIO_read :: "int \<Rightarrow> BytesIO \<Rightarrow> bytes \<times> BytesIO" where
  "BytesIO_read sz b =
     (let rest = drop (pos b) (getvalue b);
          ret = (if sz < 0 then rest else take (nat sz) rest)
      in (ret, b\<lparr>pos := pos b + length ret\<rparr>))"

text \<open>
  \<open>write(buf)\<close>: overwrite at the cursor, growing the contents (zero-filled when the
  cursor is past the end); an empty \<open>buf\<close> changes nothing; a non-bytes argument raises
  \<open>TypeError\<close> and changes nothing.
\<close>

definition BytesIO_write :: "pyobj \<Rightarrow> BytesIO \<Rightarrow> (unit, BytesIO) outcome" where
  "BytesIO_write buf b =
     (case buf of
        PyBytes d \<Rightarrow>
          if d = [] then (Inr (), b)
          else (Inr (),
                \<lparr>getvalue = take (pos b) (getvalue b) @ replicate (pos b - length (getvalue b)) 0
                     @ d @ drop (pos b + length d) (getvalue b),
                 pos = pos b + length d\<rparr>)
      | _ \<Rightarrow> (Inl TypeError, b))"

subsection \<open>\<open>TTransportBase.readAll\<close>\<close>

text \<open>
  The generic loop, over the \<open>read\<close> of whatever class inherits it. The test
  \<open>chunkLen == 0\<close> stands after the two accumulations in the source and raises before
  either can be observed, so the model tests it first.
\<close>

function readAll_loop ::
  "(int \<Rightarrow> 's \<Rightarrow> (bytes, 's) outcome) \<Rightarrow> int \<Rightarrow> bytes \<Rightarrow> int \<Rightarrow> 's \<Rightarrow> (bytes, 's) outcome"
where
  "readAll_loop rd sz buff have s =
     (if have < sz then
        (case rd (sz - have) s of
           (Inl e, s') \<Rightarrow> (Inl e, s')
         | (Inr chunk, s') \<Rightarrow>
             if int (length chunk) = 0 then (Inl EOFError, s')
             else readAll_loop rd sz (buff @ chunk) (have + int (length chunk)) s')
      else (Inr buff, s))"
  by pat_completeness auto
termination
  by (relation "measure (\<lambda>(rd, sz, buff, have, s). nat (sz - have))") auto

definition readAll :: "(int \<Rightarrow> 's \<Rightarrow> (bytes, 's) outcome) \<Rightarrow> int \<Rightarrow> 's \<Rightarrow> (bytes, 's) outcome" where
  "readAll rd sz s = readAll_loop rd sz [] 0 s"

subsection \<open>\<open>struct.pack\<close> and \<open>struct.unpack\<close>\<close>

text \<open>
  The two formats of the module. \<open>'!i'\<close> is a signed 32-bit integer in network byte
  order: \<open>pack\<close> raises \<open>struct.error\<close> outside \<open>-2^31 .. 2^31 - 1\<close>, and \<open>unpack\<close>
  raises it unless it is given exactly four bytes. \<open>'>BI'\<close> is an unsigned byte
  followed by an unsigned 32-bit integer, five bytes with no padding.
\<close>

definition be32 :: "int \<Rightarrow> bytes" where
  "be32 u = [word_of_int (u div 2 ^ 24), word_of_int (u div 2 ^ 16),
             word_of_int (u div 2 ^ 8), word_of_int u]"

definition from_be32 :: "byte \<Rightarrow> byte \<Rightarrow> byte \<Rightarrow> byte \<Rightarrow> int" where
  "from_be32 a b c d = uint a * 2 ^ 24 + uint b * 2 ^ 16 + uint c * 2 ^ 8 + uint d"

definition pack_i :: "int \<Rightarrow> error + bytes" where
  "pack_i n = (if - (2 ^ 31) \<le> n \<and> n < 2 ^ 31 then Inr (be32 (n mod 2 ^ 32)) else Inl StructError)"

fun unpack_i :: "bytes \<Rightarrow> error + int" where
  "unpack_i [a, b, c, d] =
     (let u = from_be32 a b c d in Inr (if 2 ^ 31 \<le> u then u - 2 ^ 32 else u))"
| "unpack_i _ = Inl StructError"

definition pack_BI :: "int \<Rightarrow> int \<Rightarrow> error + bytes" where
  "pack_BI status n =
     (if 0 \<le> status \<and> status < 256 \<and> 0 \<le> n \<and> n < 2 ^ 32
      then Inr (word_of_int status # be32 n) else Inl StructError)"

fun unpack_BI :: "bytes \<Rightarrow> error + (nat \<times> nat)" where
  "unpack_BI [s, a, b, c, d] = Inr (unat s, nat (from_be32 a b c d))"
| "unpack_BI _ = Inl StructError"

subsection \<open>The wrapped transport\<close>

text \<open>
  A wrapping transport holds another transport object and calls its methods. That
  object is any class with the transport methods: its methods are the fields of the
  record, \<open>chan\<close> is its state, and \<open>calls\<close> records every method call made on it with
  the outcome, so that "which calls reach the underlying channel" can be stated.
  The object inherits \<open>readAll\<close> from \<open>TTransportBase\<close>, as every transport of the module
  does.
\<close>

datatype call = CallRead int "error + bytes" | CallWrite bytes "error + unit"
  | CallFlush "error + unit" | CallIsOpen "error + bool" | CallOpen "error + unit"
  | CallClose "error + unit"

record 's transport =
  read_impl :: "int \<Rightarrow> 's \<Rightarrow> (bytes, 's) outcome"
  write_impl :: "bytes \<Rightarrow> 's \<Rightarrow> (unit, 's) outcome"
  flush_impl :: "'s \<Rightarrow> (unit, 's) outcome"
  isOpen_impl :: "'s \<Rightarrow> (bool, 's) outcome"
  open_impl :: "'s \<Rightarrow> (unit, 's) outcome"
  close_impl :: "'s \<Rightarrow> (unit, 's) outcome"
  chan :: 's
  calls :: "call list"

definition trans_read :: "int \<Rightarrow> 's transport \<Rightarrow> (bytes, 's transport) outcome" where
  "trans_read sz t =
     (case read_impl t sz (chan t) of
        (r, s') \<Rightarrow> (r, t\<lparr>chan := s', calls := calls t @ [CallRead sz r]\<rparr>))"

definition trans_write :: "bytes \<Rightarrow> 's transport \<Rightarrow> (unit, 's transport) outcome" where
  "trans_write buf t =
     (case write_impl t buf (chan t) of
        (r, s') \<Rightarrow> (r, t\<lparr>chan := s', calls := calls t @ [CallWrite buf r]\<rparr>))"

definition trans_flush :: "'s transport \<Rightarrow> (unit, 's transport) outcome" where
  "trans_flush t =
     (case flush_impl t (chan t) of
        (r, s') \<Rightarrow> (r, t\<lparr>chan := s', calls := calls t @ [CallFlush r]\<rparr>))"

definition trans_isOpen :: "'s transport \<Rightarrow> (bool, 's transport) outcome" where
  "trans_isOpen t =
     (case isOpen_impl t (chan t) of
        (r, s') \<Rightarrow> (r, t\<lparr>chan := s', calls := calls t @ [CallIsOpen r]\<rparr>))"

definition trans_open :: "'s transport \<Rightarrow> (unit, 's transport) outcome" where
  "trans_open t =
     (case open_impl t (chan t) of
        (r, s') \<Rightarrow> (r, t\<lparr>chan := s', calls := calls t @ [CallOpen r]\<rparr>))"

definition trans_close :: "'s transport \<Rightarrow> (unit, 's transport) outcome" where
  "trans_close t =
     (case close_impl t (chan t) of
        (r, s') \<Rightarrow> (r, t\<lparr>chan := s', calls := calls t @ [CallClose r]\<rparr>))"

definition trans_readAll :: "int \<Rightarrow> 's transport \<Rightarrow> (bytes, 's transport) outcome" where
  "trans_readAll sz t = readAll trans_read sz t"

subsection \<open>\<open>TMemoryBuffer\<close>\<close>

record TMemoryBuffer =
  buffer :: BytesIO
  closed :: bool

text \<open>\<open>__init__(value=None, offset=0)\<close>: \<open>seek\<close> raises \<open>ValueError\<close> on a negative offset.\<close>

definition TMemoryBuffer_init :: "bytes option \<Rightarrow> int \<Rightarrow> error + TMemoryBuffer" where
  "TMemoryBuffer_init v offset =
     (let b = (case v of Some x \<Rightarrow> BytesIO_new x | None \<Rightarrow> BytesIO_new [])
      in if offset \<noteq> 0 then
           (if offset < 0 then Inl ValueError
            else Inr \<lparr>buffer = b\<lparr>pos := nat offset\<rparr>, closed = False\<rparr>)
         else Inr \<lparr>buffer = b, closed = False\<rparr>)"

definition TMemoryBuffer_isOpen :: "TMemoryBuffer \<Rightarrow> (bool, TMemoryBuffer) outcome" where
  "TMemoryBuffer_isOpen m = (Inr (\<not> closed m), m)"

definition TMemoryBuffer_open :: "TMemoryBuffer \<Rightarrow> (unit, TMemoryBuffer) outcome" where
  "TMemoryBuffer_open m = (Inr (), m)"

definition TMemoryBuffer_close :: "TMemoryBuffer \<Rightarrow> (unit, TMemoryBuffer) outcome" where
  "TMemoryBuffer_close m = (Inr (), m\<lparr>closed := True\<rparr>)"

definition TMemoryBuffer_read :: "int \<Rightarrow> TMemoryBuffer \<Rightarrow> (bytes, TMemoryBuffer) outcome" where
  "TMemoryBuffer_read sz m =
     (if closed m then (Inl ValueError, m)
      else (case BytesIO_read sz (buffer m) of (ret, b) \<Rightarrow> (Inr ret, m\<lparr>buffer := b\<rparr>)))"

definition TMemoryBuffer_write :: "pyobj \<Rightarrow> TMemoryBuffer \<Rightarrow> (unit, TMemoryBuffer) outcome" where
  "TMemoryBuffer_write buf m =
     (if closed m then (Inl ValueError, m)
      else (case BytesIO_write buf (buffer m) of (r, b) \<Rightarrow> (r, m\<lparr>buffer := b\<rparr>)))"

definition TMemoryBuffer_flush :: "TMemoryBuffer \<Rightarrow> (unit, TMemoryBuffer) outcome" where
  "TMemoryBuffer_flush m = (Inr (), m)"

definition TMemoryBuffer_getvalue :: "TMemoryBuffer \<Rightarrow> error + bytes" where
  "TMemoryBuffer_getvalue m = (if closed m then Inl ValueError else Inr (getvalue (buffer m)))"

definition TMemoryBuffer_readAll :: "int \<Rightarrow> TMemoryBuffer \<Rightarrow> (bytes, TMemoryBuffer) outcome" where
  "TMemoryBuffer_readAll sz m = readAll TMemoryBuffer_read sz m"


text \<open>A \<open>TMemoryBuffer\<close> handed to a wrapping transport as its underlying transport.\<close>

definition memory_transport :: "TMemoryBuffer \<Rightarrow> TMemoryBuffer transport" where
  "memory_transport m =
     \<lparr>read_impl = TMemoryBuffer_read,
      write_impl = (\<lambda>buf. TMemoryBuffer_write (PyBytes buf)),
      flush_impl = TMemoryBuffer_flush,
      isOpen_impl = TMemoryBuffer_isOpen,
      open_impl = TMemoryBuffer_open,
      close_impl = TMemoryBuffer_close,
      chan = m, calls = []\<rparr>"

subsection \<open>\<open>TBufferedTransport\<close>\<close>

record 's TBufferedTransport =
  buffered_trans :: "'s transport"
  buffered_wbuf :: BytesIO
  buffered_rbuf :: BytesIO
  buffered_rbuf_size :: int

definition DEFAULT_BUFFER :: int where
  "DEFAULT_BUFFER = 4096"

definition TBufferedTransport_init :: "'s transport \<Rightarrow> int \<Rightarrow> 's TBufferedTransport" where
  "TBufferedTransport_init t rbuf_size =
     \<lparr>buffered_trans = t, buffered_wbuf = BytesIO_new [], buffered_rbuf = BytesIO_new [],
      buffered_rbuf_size = rbuf_size\<rparr>"

definition TBufferedTransport_read ::
  "int \<Rightarrow> 's TBufferedTransport \<Rightarrow> (bytes, 's TBufferedTransport) outcome" where
  "TBufferedTransport_read sz self =
     (case BytesIO_read sz (buffered_rbuf self) of
        (ret, rb) \<Rightarrow>
          if length ret \<noteq> 0 then (Inr ret, self\<lparr>buffered_rbuf := rb\<rparr>)
          else
            (case trans_read (max sz (buffered_rbuf_size self)) (buffered_trans self) of
               (Inl e, t') \<Rightarrow> (Inl e, self\<lparr>buffered_rbuf := rb, buffered_trans := t'\<rparr>)
             | (Inr fetched, t') \<Rightarrow>
                 (case BytesIO_read sz (BytesIO_new fetched) of
                    (ret2, rb2) \<Rightarrow> (Inr ret2, self\<lparr>buffered_rbuf := rb2, buffered_trans := t'\<rparr>))))"

text \<open>\<open>write\<close>: the \<open>except\<close> branch replaces the write buffer by a fresh one and re-raises.\<close>

definition TBufferedTransport_write ::
  "pyobj \<Rightarrow> 's TBufferedTransport \<Rightarrow> (unit, 's TBufferedTransport) outcome" where
  "TBufferedTransport_write buf self =
     (case BytesIO_write buf (buffered_wbuf self) of
        (Inr u, wb) \<Rightarrow> (Inr (), self\<lparr>buffered_wbuf := wb\<rparr>)
      | (Inl e, wb) \<Rightarrow> (Inl e, self\<lparr>buffered_wbuf := BytesIO_new []\<rparr>))"

definition TBufferedTransport_flush ::
  "'s TBufferedTransport \<Rightarrow> (unit, 's TBufferedTransport) outcome" where
  "TBufferedTransport_flush self =
     (let out = getvalue (buffered_wbuf self);
          self1 = self\<lparr>buffered_wbuf := BytesIO_new []\<rparr>
      in case trans_write out (buffered_trans self1) of
           (Inl e, t') \<Rightarrow> (Inl e, self1\<lparr>buffered_trans := t'\<rparr>)
         | (Inr u, t') \<Rightarrow>
             (case trans_flush t' of (r, t'') \<Rightarrow> (r, self1\<lparr>buffered_trans := t''\<rparr>)))"

definition TBufferedTransport_cstringio_refill ::
  "bytes \<Rightarrow> int \<Rightarrow> 's TBufferedTransport \<Rightarrow> (BytesIO, 's TBufferedTransport) outcome" where
  "TBufferedTransport_cstringio_refill partialread reqlen self =
     (case (if reqlen < buffered_rbuf_size self
            then (case trans_read (buffered_rbuf_size self) (buffered_trans self) of
                    (Inl e, t') \<Rightarrow> (Inl e, t')
                  | (Inr got, t') \<Rightarrow> (Inr (partialread @ got), t'))
            else (Inr partialread, buffered_trans self)) of
        (Inl e, t') \<Rightarrow> (Inl e, self\<lparr>buffered_trans := t'\<rparr>)
      | (Inr retstring, t') \<Rightarrow>
          (case (if int (length retstring) < reqlen
                 then (case trans_readAll (reqlen - int (length retstring)) t' of
                         (Inl e, t'') \<Rightarrow> (Inl e, t'')
                       | (Inr got, t'') \<Rightarrow> (Inr (retstring @ got), t''))
                 else (Inr retstring, t')) of
             (Inl e, t'') \<Rightarrow> (Inl e, self\<lparr>buffered_trans := t''\<rparr>)
           | (Inr retstring2, t'') \<Rightarrow>
               (Inr (BytesIO_new retstring2),
                self\<lparr>buffered_trans := t'', buffered_rbuf := BytesIO_new retstring2\<rparr>)))"

subsection \<open>\<open>TFramedTransport\<close>\<close>

record 's TFramedTransport =
  framed_trans :: "'s transport"
  framed_rbuf :: BytesIO
  framed_wbuf :: BytesIO

definition TFramedTransport_init :: "'s transport \<Rightarrow> 's TFramedTransport" where
  "TFramedTransport_init t =
     \<lparr>framed_trans = t, framed_rbuf = BytesIO_new [], framed_wbuf = BytesIO_new []\<rparr>"

definition TFramedTransport_readFrame ::
  "'s TFramedTransport \<Rightarrow> (unit, 's TFramedTransport) outcome" where
  "TFramedTransport_readFrame self =
     (case trans_readAll 4 (framed_trans self) of
        (Inl e, t') \<Rightarrow> (Inl e, self\<lparr>framed_trans := t'\<rparr>)
      | (Inr buff, t') \<Rightarrow>
          (case unpack_i buff of
             Inl e \<Rightarrow> (Inl e, self\<lparr>framed_trans := t'\<rparr>)
           | Inr sz \<Rightarrow>
               (case trans_readAll sz t' of
                  (Inl e, t'') \<Rightarrow> (Inl e, self\<lparr>framed_trans := t''\<rparr>)
                | (Inr payload, t'') \<Rightarrow>
                    (Inr (), self\<lparr>framed_trans := t'', framed_rbuf := BytesIO_new payload\<rparr>))))"

definition TFramedTransport_read ::
  "int \<Rightarrow> 's TFramedTransport \<Rightarrow> (bytes, 's TFramedTransport) outcome" where
  "TFramedTransport_read sz self =
     (case BytesIO_read sz (framed_rbuf self) of
        (ret, rb) \<Rightarrow>
          if length ret \<noteq> 0 then (Inr ret, self\<lparr>framed_rbuf := rb\<rparr>)
          else
            (case TFramedTransport_readFrame (self\<lparr>framed_rbuf := rb\<rparr>) of
               (Inl e, self') \<Rightarrow> (Inl e, self')
             | (Inr u, self') \<Rightarrow>
                 (case BytesIO_read sz (framed_rbuf self') of
                    (ret2, rb2) \<Rightarrow> (Inr ret2, self'\<lparr>framed_rbuf := rb2\<rparr>))))"

text \<open>\<open>write\<close> has no \<open>try\<close>: what \<open>BytesIO.write\<close> raises leaves the method as it is.\<close>

definition TFramedTransport_write ::
  "pyobj \<Rightarrow> 's TFramedTransport \<Rightarrow> (unit, 's TFramedTransport) outcome" where
  "TFramedTransport_write buf self =
     (case BytesIO_write buf (framed_wbuf self) of
        (r, wb) \<Rightarrow> (r, self\<lparr>framed_wbuf := wb\<rparr>))"

definition TFramedTransport_flush ::
  "'s TFramedTransport \<Rightarrow> (unit, 's TFramedTransport) outcome" where
  "TFramedTransport_flush self =
     (let wout = getvalue (framed_wbuf self);
          wsz = int (length wout);
          self1 = self\<lparr>framed_wbuf := BytesIO_new []\<rparr>
      in case pack_i wsz of
           Inl e \<Rightarrow> (Inl e, self1)
         | Inr header \<Rightarrow>
             (case trans_write (header @ wout) (framed_trans self1) of
                (Inl e, t') \<Rightarrow> (Inl e, self1\<lparr>framed_trans := t'\<rparr>)
              | (Inr u, t') \<Rightarrow>
                  (case trans_flush t' of (r, t'') \<Rightarrow> (r, self1\<lparr>framed_trans := t''\<rparr>))))"

text \<open>
  \<open>cstringio_refill\<close>: the loop reads whole frames while the prefix is short. A channel
  that keeps delivering empty frames keeps it running, so the loop is a partial
  function: \<open>None\<close> is "never returns".
\<close>

partial_function (option) framed_refill_loop ::
  "bytes \<Rightarrow> int \<Rightarrow> 's TFramedTransport \<Rightarrow> (bytes, 's TFramedTransport) outcome option" where
  "framed_refill_loop prefix reqlen self =
     (if int (length prefix) < reqlen then
        (case TFramedTransport_readFrame self of
           (Inl e, self') \<Rightarrow> Some (Inl e, self')
         | (Inr u, self') \<Rightarrow>
             framed_refill_loop (prefix @ getvalue (framed_rbuf self')) reqlen self')
      else Some (Inr prefix, self))"

definition TFramedTransport_cstringio_refill ::
  "bytes \<Rightarrow> int \<Rightarrow> 's TFramedTransport \<Rightarrow> (BytesIO, 's TFramedTransport) outcome option" where
  "TFramedTransport_cstringio_refill prefix reqlen self =
     (case framed_refill_loop prefix reqlen self of
        None \<Rightarrow> None
      | Some (Inl e, self') \<Rightarrow> Some (Inl e, self')
      | Some (Inr prefix', self') \<Rightarrow>
          Some (Inr (BytesIO_new prefix'), self'\<lparr>framed_rbuf := BytesIO_new prefix'\<rparr>))"

subsection \<open>\<open>TSaslClientTransport\<close>\<close>

text \<open>
  The security engine is \<open>puresasl.client.SASLClient\<close>, a collaborator outside this
  module: its methods are the fields of the record and \<open>engine\<close> is its state. The
  trace lines that the methods \<open>print\<close> have no part in the outcome and are left out.
\<close>

record 'e SASLClient =
  mechanism :: string
  process_impl :: "pyobj option \<Rightarrow> 'e \<Rightarrow> (bytes, 'e) outcome"
  wrap_impl :: "bytes \<Rightarrow> 'e \<Rightarrow> (bytes, 'e) outcome"
  unwrap_impl :: "bytes \<Rightarrow> 'e \<Rightarrow> (bytes, 'e) outcome"
  complete_impl :: "'e \<Rightarrow> bool"
  engine :: 'e

definition sasl_process :: "pyobj option \<Rightarrow> 'e SASLClient \<Rightarrow> (bytes, 'e SASLClient) outcome" where
  "sasl_process challenge c =
     (case process_impl c challenge (engine c) of (r, e') \<Rightarrow> (r, c\<lparr>engine := e'\<rparr>))"

definition sasl_wrap :: "bytes \<Rightarrow> 'e SASLClient \<Rightarrow> (bytes, 'e SASLClient) outcome" where
  "sasl_wrap d c = (case wrap_impl c d (engine c) of (r, e') \<Rightarrow> (r, c\<lparr>engine := e'\<rparr>))"

definition sasl_unwrap :: "bytes \<Rightarrow> 'e SASLClient \<Rightarrow> (bytes, 'e SASLClient) outcome" where
  "sasl_unwrap d c = (case unwrap_impl c d (engine c) of (r, e') \<Rightarrow> (r, c\<lparr>engine := e'\<rparr>))"

definition sasl_complete :: "'e SASLClient \<Rightarrow> bool" where
  "sasl_complete c = complete_impl c (engine c)"

text \<open>\<open>bytes(s, 'ascii')\<close> raises \<open>UnicodeEncodeError\<close> on a character outside ASCII.\<close>

definition bytes_ascii :: "string \<Rightarrow> error + bytes" where
  "bytes_ascii s =
     (if list_all (\<lambda>c. (of_char c :: nat) < 128) s then Inr (map of_char s)
      else Inl UnicodeEncodeError)"

definition START :: nat where "START = 1"
definition OK :: nat where "OK = 2"
definition COMPLETE :: nat where "COMPLETE = 5"

record ('s, 'e) TSaslClientTransport =
  transport :: "'s transport"
  sasl :: "'e SASLClient"
  sasl_wbuf :: BytesIO
  sasl_rbuf :: BytesIO

definition send_sasl_msg ::
  "nat \<Rightarrow> bytes \<Rightarrow> ('s, 'e) TSaslClientTransport \<Rightarrow> (unit, ('s, 'e) TSaslClientTransport) outcome"
where
  "send_sasl_msg status body self =
     (case pack_BI (int status) (int (length body)) of
        Inl e \<Rightarrow> (Inl e, self)
      | Inr header \<Rightarrow>
          (case trans_write (header @ body) (transport self) of
             (Inl e, t') \<Rightarrow> (Inl e, self\<lparr>transport := t'\<rparr>)
           | (Inr u, t') \<Rightarrow>
               (case trans_flush t' of (r, t'') \<Rightarrow> (r, self\<lparr>transport := t''\<rparr>))))"

text \<open>\<open>recv_sasl_msg\<close>: the payload of a message of length 0 is the \<open>str\<close> \<open>""\<close>.\<close>

definition recv_sasl_msg ::
  "('s, 'e) TSaslClientTransport \<Rightarrow> (nat \<times> pyobj, ('s, 'e) TSaslClientTransport) outcome"
where
  "recv_sasl_msg self =
     (case trans_readAll 5 (transport self) of
        (Inl e, t') \<Rightarrow> (Inl e, self\<lparr>transport := t'\<rparr>)
      | (Inr header, t') \<Rightarrow>
          (case unpack_BI header of
             Inl e \<Rightarrow> (Inl e, self\<lparr>transport := t'\<rparr>)
           | Inr (status, len) \<Rightarrow>
               if len > 0 then
                 (case trans_readAll (int len) t' of
                    (Inl e, t'') \<Rightarrow> (Inl e, self\<lparr>transport := t''\<rparr>)
                  | (Inr payload, t'') \<Rightarrow>
                      (Inr (status, PyBytes payload), self\<lparr>transport := t''\<rparr>))
               else (Inr (status, PyStr []), self\<lparr>transport := t'\<rparr>)))"

text \<open>
  The \<open>while True\<close> of \<open>open\<close>. A server that answers \<open>OK\<close> for ever keeps it running, so
  the loop is a partial function: \<open>None\<close> is "never returns".
\<close>

partial_function (option) open_loop ::
  "('s, 'e) TSaslClientTransport \<Rightarrow> (unit, ('s, 'e) TSaslClientTransport) outcome option"
where
  "open_loop self =
     (case recv_sasl_msg self of
        (Inl e, self1) \<Rightarrow> Some (Inl e, self1)
      | (Inr (status, challenge), self1) \<Rightarrow>
          if status = OK then
            (case sasl_process (Some challenge) (sasl self1) of
               (Inl e, c') \<Rightarrow> Some (Inl e, self1\<lparr>sasl := c'\<rparr>)
             | (Inr response, c') \<Rightarrow>
                 (case send_sasl_msg OK response (self1\<lparr>sasl := c'\<rparr>) of
                    (Inl e, self2) \<Rightarrow> Some (Inl e, self2)
                  | (Inr u, self2) \<Rightarrow> open_loop self2))
          else if status = COMPLETE then
            (if \<not> sasl_complete (sasl self1)
             then Some (Inl (TTransportException NOT_OPEN ErroneousComplete), self1)
             else Some (Inr (), self1))
          else Some (Inl (TTransportException NOT_OPEN (BadStatus status challenge)), self1))"

definition TSaslClientTransport_open ::
  "('s, 'e) TSaslClientTransport \<Rightarrow> (unit, ('s, 'e) TSaslClientTransport) outcome option"
where
  "TSaslClientTransport_open self =
     (case trans_isOpen (transport self) of
        (Inl e, t1) \<Rightarrow> Some (Inl e, self\<lparr>transport := t1\<rparr>)
      | (Inr is_open, t1) \<Rightarrow>
          (case (if \<not> is_open then trans_open t1 else (Inr (), t1)) of
             (Inl e, t2) \<Rightarrow> Some (Inl e, self\<lparr>transport := t2\<rparr>)
           | (Inr u, t2) \<Rightarrow>
               (case bytes_ascii (mechanism (sasl self)) of
                  Inl e \<Rightarrow> Some (Inl e, self\<lparr>transport := t2\<rparr>)
                | Inr mech \<Rightarrow>
                    (case send_sasl_msg START mech (self\<lparr>transport := t2\<rparr>) of
                       (Inl e, self3) \<Rightarrow> Some (Inl e, self3)
                     | (Inr u, self3) \<Rightarrow>
                         (case sasl_process None (sasl self3) of
                            (Inl e, c') \<Rightarrow> Some (Inl e, self3\<lparr>sasl := c'\<rparr>)
                          | (Inr response, c') \<Rightarrow>
                              (case send_sasl_msg OK response (self3\<lparr>sasl := c'\<rparr>) of
                                 (Inl e, self4) \<Rightarrow> Some (Inl e, self4)
                               | (Inr u, self4) \<Rightarrow> open_loop self4))))))"

definition TSaslClientTransport_write ::
  "pyobj \<Rightarrow> ('s, 'e) TSaslClientTransport \<Rightarrow> (unit, ('s, 'e) TSaslClientTransport) outcome"
where
  "TSaslClientTransport_write data self =
     (case BytesIO_write data (sasl_wbuf self) of
        (r, wb) \<Rightarrow> (r, self\<lparr>sasl_wbuf := wb\<rparr>))"

text \<open>\<open>flush\<close>: the write buffer is replaced by a fresh one in the last statement.\<close>

definition TSaslClientTransport_flush ::
  "('s, 'e) TSaslClientTransport \<Rightarrow> (unit, ('s, 'e) TSaslClientTransport) outcome"
where
  "TSaslClientTransport_flush self =
     (let data = getvalue (sasl_wbuf self)
      in case sasl_wrap data (sasl self) of
           (Inl e, c') \<Rightarrow> (Inl e, self\<lparr>sasl := c'\<rparr>)
         | (Inr encoded, c') \<Rightarrow>
             (case pack_i (int (length encoded)) of
                Inl e \<Rightarrow> (Inl e, self\<lparr>sasl := c'\<rparr>)
              | Inr header \<Rightarrow>
                  (case trans_write (header @ encoded) (transport self) of
                     (Inl e, t') \<Rightarrow> (Inl e, self\<lparr>sasl := c', transport := t'\<rparr>)
                   | (Inr u, t') \<Rightarrow>
                       (case trans_flush t' of
                          (Inl e, t'') \<Rightarrow> (Inl e, self\<lparr>sasl := c', transport := t''\<rparr>)
                        | (Inr u, t'') \<Rightarrow>
                            (Inr (), self\<lparr>sasl := c', transport := t'',
                                         sasl_wbuf := BytesIO_new []\<rparr>)))))"

definition read_frame ::
  "('s, 'e) TSaslClientTransport \<Rightarrow> (unit, ('s, 'e) TSaslClientTransport) outcome"
where
  "read_frame self =
     (case trans_readAll 4 (transport self) of
        (Inl e, t') \<Rightarrow> (Inl e, self\<lparr>transport := t'\<rparr>)
      | (Inr header, t') \<Rightarrow>
          (case unpack_i header of
             Inl e \<Rightarrow> (Inl e, self\<lparr>transport := t'\<rparr>)
           | Inr len \<Rightarrow>
               (case trans_readAll len t' of
                  (Inl e, t'') \<Rightarrow> (Inl e, self\<lparr>transport := t''\<rparr>)
                | (Inr encoded, t'') \<Rightarrow>
                    (case sasl_unwrap encoded (sasl self) of
                       (Inl e, c') \<Rightarrow> (Inl e, self\<lparr>transport := t'', sasl := c'\<rparr>)
                     | (Inr decoded, c') \<Rightarrow>
                         (Inr (), self\<lparr>transport := t'', sasl := c',
                                      sasl_rbuf := BytesIO_new decoded\<rparr>)))))"

definition TSaslClientTransport_read ::
  "int \<Rightarrow> ('s, 'e) TSaslClientTransport \<Rightarrow> (bytes, ('s, 'e) TSaslClientTransport) outcome"
where
  "TSaslClientTransport_read sz self =
     (case BytesIO_read sz (sasl_rbuf self) of
        (ret, rb) \<Rightarrow>
          if length ret \<noteq> 0 then (Inr ret, self\<lparr>sasl_rbuf := rb\<rparr>)
          else
            (case read_frame (self\<lparr>sasl_rbuf := rb\<rparr>) of
               (Inl e, self') \<Rightarrow> (Inl e, self')
             | (Inr u, self') \<Rightarrow>
                 (case BytesIO_read sz (sasl_rbuf self') of
                    (ret2, rb2) \<Rightarrow> (Inr ret2, self'\<lparr>sasl_rbuf := rb2\<rparr>))))"



subsection \<open>Reading the record of calls\<close>

text \<open>
  Three readings of a stretch of the record of calls: the chunks that its successful
  reads returned, in order; that every call in it is a read that returned a non-empty
  chunk; and that every call in it is a read asking for exactly the bytes still
  missing, \<open>missing\<close> counting down by what each read returned.
\<close>

fun read_chunks :: "call list \<Rightarrow> bytes list" where
  "read_chunks [] = []"
| "read_chunks (CallRead k (Inr d) # cs) = d # read_chunks cs"
| "read_chunks (c # cs) = read_chunks cs"

fun good_reads :: "call list \<Rightarrow> bool" where
  "good_reads [] = True"
| "good_reads (CallRead k (Inr d) # cs) = (d \<noteq> [] \<and> good_reads cs)"
| "good_reads (c # cs) = False"

fun requests_ok :: "int \<Rightarrow> call list \<Rightarrow> bool" where
  "requests_ok missing [] = True"
| "requests_ok missing (CallRead k r # cs) =
     (k = missing \<and> 0 < missing \<and>
      requests_ok (missing - (case r of Inr d \<Rightarrow> int (length d) | Inl e \<Rightarrow> 0)) cs)"
| "requests_ok missing (c # cs) = False"

text \<open>Every successful read returned at most the bytes it was asked for.\<close>

fun within_request :: "call list \<Rightarrow> bool" where
  "within_request [] = True"
| "within_request (CallRead k (Inr d) # cs) = (int (length d) \<le> k \<and> within_request cs)"
| "within_request (c # cs) = within_request cs"

text \<open>
  What \<open>readAll\<close> leaves behind when \<open>missing\<close> bytes are still to be read and \<open>buff\<close>
  is what it holds: it returns, it met an empty read, or a read raised.
\<close>

definition readAll_post :: "int \<Rightarrow> bytes \<Rightarrow> call list \<Rightarrow> error + bytes \<Rightarrow> bool" where
  "readAll_post missing buff new r =
     (requests_ok missing new \<and>
      ((good_reads new \<and> r = Inr (buff @ concat (read_chunks new))
          \<and> missing \<le> int (length (concat (read_chunks new))))
       \<or> (\<exists>pre k. new = pre @ [CallRead k (Inr [])] \<and> good_reads pre \<and> r = Inl EOFError
             \<and> int (length (concat (read_chunks pre))) < missing)
       \<or> (\<exists>pre k e. new = pre @ [CallRead k (Inl e)] \<and> good_reads pre \<and> r = Inl e
             \<and> int (length (concat (read_chunks pre))) < missing)))"

subsection \<open>Concrete objects\<close>

definition three_bytes :: TMemoryBuffer where
  "three_bytes = \<lparr>buffer = BytesIO_new [1, 2, 3], closed = False\<rparr>"

definition negative_header :: TMemoryBuffer where
  "negative_header = \<lparr>buffer = BytesIO_new [255, 255, 255, 254, 1, 2, 3], closed = False\<rparr>"

definition ten_bytes :: TMemoryBuffer where
  "ten_bytes = \<lparr>buffer = BytesIO_new [1, 2, 3, 4, 5, 6, 7, 8, 9, 10], closed = False\<rparr>"

definition unread_buffered :: "TMemoryBuffer TBufferedTransport" where
  "unread_buffered =
     \<lparr>buffered_trans = memory_transport three_bytes, buffered_wbuf = BytesIO_new [],
      buffered_rbuf = BytesIO_new [7, 8, 9], buffered_rbuf_size = DEFAULT_BUFFER\<rparr>"

definition unread_framed :: "TMemoryBuffer TFramedTransport" where
  "unread_framed =
     \<lparr>framed_trans = memory_transport \<lparr>buffer = BytesIO_new [0, 0, 0, 2, 10, 11], closed = False\<rparr>,
      framed_rbuf = BytesIO_new [7, 8, 9], framed_wbuf = BytesIO_new []\<rparr>"

definition plain_sasl :: "bool SASLClient" where
  "plain_sasl =
     \<lparr>mechanism = ''PLAIN'',
      process_impl = (\<lambda>challenge e. (Inr [1], True)),
      wrap_impl = (\<lambda>d e. (Inr d, e)),
      unwrap_impl = (\<lambda>d e. (Inr d, e)),
      complete_impl = (\<lambda>e. e),
      engine = False\<rparr>"

definition unread_sasl :: "(TMemoryBuffer, bool) TSaslClientTransport" where
  "unread_sasl =
     \<lparr>transport = memory_transport \<lparr>buffer = BytesIO_new [0, 0, 0, 2, 10, 11], closed = False\<rparr>,
      sasl = plain_sasl,
      sasl_wbuf = BytesIO_new [], sasl_rbuf = BytesIO_new [7, 8, 9]\<rparr>"

subsection \<open>The length field as the specification words it\<close>

text \<open>
  The specification's wire format: \<open>length:uint32(big-endian)\<close>, the four bytes of an
  unsigned 32-bit integer, most significant first. It is written from those words, to
  be compared with what \<open>pack("!i", n)\<close> produces.
\<close>

definition uint32_be :: "nat \<Rightarrow> bytes" where
  "uint32_be n = [of_nat (n div 2 ^ 24 mod 256), of_nat (n div 2 ^ 16 mod 256),
                  of_nat (n div 2 ^ 8 mod 256), of_nat (n mod 256)]"

subsection \<open>Writing a frame and reading it back\<close>

text \<open>
  The round trip over one channel, as the tests of the transports do it: a
  \<open>TFramedTransport\<close> over a \<open>TMemoryBuffer\<close> for writing takes \<open>write(P)\<close> and \<open>flush()\<close>;
  \<open>getvalue()\<close> of the buffer is what is on the wire; a peer \<open>TFramedTransport\<close> over a
  \<open>TMemoryBuffer\<close> holding those bytes takes \<open>read(len(P))\<close>.
\<close>

definition write_buffer :: TMemoryBuffer where
  "write_buffer = \<lparr>buffer = BytesIO_new [], closed = False\<rparr>"

definition framed_on_wire :: "bytes \<Rightarrow> error + bytes" where
  "framed_on_wire P =
     (case TFramedTransport_write (PyBytes P) (TFramedTransport_init (memory_transport write_buffer)) of
        (Inl e, w1) \<Rightarrow> Inl e
      | (Inr u, w1) \<Rightarrow>
          (case TFramedTransport_flush w1 of
             (Inl e, w2) \<Rightarrow> Inl e
           | (Inr u, w2) \<Rightarrow> TMemoryBuffer_getvalue (chan (framed_trans w2))))"

definition framed_roundtrip :: "bytes \<Rightarrow> error + bytes" where
  "framed_roundtrip P =
     (case framed_on_wire P of
        Inl e \<Rightarrow> Inl e
      | Inr wire \<Rightarrow>
          (case TMemoryBuffer_init (Some wire) 0 of
             Inl e \<Rightarrow> Inl e
           | Inr m \<Rightarrow>
               fst (TFramedTransport_read (int (length P))
                      (TFramedTransport_init (memory_transport m)))))"

definition hello :: bytes where
  "hello = [0x68, 0x65, 0x6C, 0x6C, 0x6F]"

definition hello_writer :: "TMemoryBuffer TFramedTransport" where
  "hello_writer =
     (TFramedTransport_init (memory_transport write_buffer))
       \<lparr>framed_wbuf := \<lparr>getvalue = hello, pos = 5\<rparr>\<rparr>"

definition hello_reader :: "TMemoryBuffer TFramedTransport" where
  "hello_reader =
     TFramedTransport_init
       (memory_transport \<lparr>buffer = BytesIO_new ([0, 0, 0, 5] @ hello), closed = False\<rparr>)"

definition two_gib_writer :: "TMemoryBuffer TFramedTransport" where
  "two_gib_writer =
     (TFramedTransport_init (memory_transport write_buffer))
       \<lparr>framed_wbuf := \<lparr>getvalue = replicate (2 ^ 31) 0, pos = 2 ^ 31\<rparr>\<rparr>"

subsection \<open>A channel whose first \<open>flush\<close> fails\<close>

text \<open>
  An underlying transport that accepts every \<open>write\<close> and whose \<open>flush\<close> raises the
  first time it is called and succeeds afterwards; its state counts the calls to \<open>flush\<close>.
\<close>

definition flaky_channel :: "nat transport" where
  "flaky_channel =
     \<lparr>read_impl = (\<lambda>sz s. (Inr [], s)),
      write_impl = (\<lambda>buf s. (Inr (), s)),
      flush_impl = (\<lambda>s. (if s = 0 then Inl (ChannelError ''timed out'') else Inr (), Suc s)),
      isOpen_impl = (\<lambda>s. (Inr True, s)),
      open_impl = (\<lambda>s. (Inr (), s)),
      close_impl = (\<lambda>s. (Inr (), s)),
      chan = 0, calls = []\<rparr>"

definition sasl_pending :: "(nat, bool) TSaslClientTransport" where
  "sasl_pending =
     \<lparr>transport = flaky_channel, sasl = plain_sasl,
      sasl_wbuf = \<lparr>getvalue = [1, 2, 3], pos = 3\<rparr>, sasl_rbuf = BytesIO_new []\<rparr>"

definition framed_half_built :: "TMemoryBuffer TFramedTransport" where
  "framed_half_built =
     (TFramedTransport_init (memory_transport write_buffer))
       \<lparr>framed_wbuf := \<lparr>getvalue = [1, 2, 3], pos = 3\<rparr>\<rparr>"

definition buffered_half_built :: "TMemoryBuffer TBufferedTransport" where
  "buffered_half_built =
     (TBufferedTransport_init (memory_transport write_buffer) DEFAULT_BUFFER)
       \<lparr>buffered_wbuf := \<lparr>getvalue = [1, 2, 3], pos = 3\<rparr>\<rparr>"

definition sasl_half_built :: "(TMemoryBuffer, bool) TSaslClientTransport" where
  "sasl_half_built =
     \<lparr>transport = memory_transport write_buffer, sasl = plain_sasl,
      sasl_wbuf = \<lparr>getvalue = [1, 2, 3], pos = 3\<rparr>, sasl_rbuf = BytesIO_new []\<rparr>"

subsection \<open>A scripted peer\<close>

text \<open>
  An underlying transport with a peer behind it: \<open>read\<close> takes from the bytes the peer
  has sent (\<open>inbox\<close>), \<open>write\<close> appends to the bytes sent to the peer (\<open>outbox\<close>), and the
  transport is open.
\<close>

record duplex =
  inbox :: bytes
  outbox :: bytes

definition scripted_transport :: "bytes \<Rightarrow> duplex transport" where
  "scripted_transport received =
     \<lparr>read_impl = (\<lambda>sz s. (Inr (take (nat sz) (inbox s)), s\<lparr>inbox := drop (nat sz) (inbox s)\<rparr>)),
      write_impl = (\<lambda>buf s. (Inr (), s\<lparr>outbox := outbox s @ buf\<rparr>)),
      flush_impl = (\<lambda>s. (Inr (), s)),
      isOpen_impl = (\<lambda>s. (Inr True, s)),
      open_impl = (\<lambda>s. (Inr (), s)),
      close_impl = (\<lambda>s. (Inr (), s)),
      chan = \<lparr>inbox = received, outbox = []\<rparr>, calls = []\<rparr>"

definition negotiating :: "bytes \<Rightarrow> (duplex, bool) TSaslClientTransport" where
  "negotiating received =
     \<lparr>transport = scripted_transport received, sasl = plain_sasl,
      sasl_wbuf = BytesIO_new [], sasl_rbuf = BytesIO_new []\<rparr>"


text \<open>A peer that answers \<open>OK\<close> with one byte and then \<open>ERROR\<close> with two.\<close>

definition ok_then_error :: bytes where
  "ok_then_error = [2, 0, 0, 0, 1, 9] @ [4, 0, 0, 0, 2, 7, 7]"

subsection \<open>\<open>TSaslClientTransport.isOpen\<close>\<close>


subsection \<open>The steps of the handshake\<close>

text \<open>
  The statements of \<open>open\<close> before its loop: open the underlying transport if it is
  not open, send \<open>START\<close> with the mechanism name, send \<open>OK\<close> with the engine's first
  response. It is \<open>TSaslClientTransport_open\<close> cut before \<open>while True\<close>, to name the
  state in which the loop is entered.
\<close>

definition open_prelude ::
  "('s, 'e) TSaslClientTransport \<Rightarrow> (unit, ('s, 'e) TSaslClientTransport) outcome"
where
  "open_prelude self =
     (case trans_isOpen (transport self) of
        (Inl e, t1) \<Rightarrow> (Inl e, self\<lparr>transport := t1\<rparr>)
      | (Inr is_open, t1) \<Rightarrow>
          (case (if \<not> is_open then trans_open t1 else (Inr (), t1)) of
             (Inl e, t2) \<Rightarrow> (Inl e, self\<lparr>transport := t2\<rparr>)
           | (Inr u, t2) \<Rightarrow>
               (case bytes_ascii (mechanism (sasl self)) of
                  Inl e \<Rightarrow> (Inl e, self\<lparr>transport := t2\<rparr>)
                | Inr mech \<Rightarrow>
                    (case send_sasl_msg START mech (self\<lparr>transport := t2\<rparr>) of
                       (Inl e, self3) \<Rightarrow> (Inl e, self3)
                     | (Inr u, self3) \<Rightarrow>
                         (case sasl_process None (sasl self3) of
                            (Inl e, c') \<Rightarrow> (Inl e, self3\<lparr>sasl := c'\<rparr>)
                          | (Inr response, c') \<Rightarrow>
                              send_sasl_msg OK response (self3\<lparr>sasl := c'\<rparr>))))))"


text \<open>
  An engine that needs three calls of \<open>process\<close> before it reports completion; its
  state counts the calls.
\<close>

definition reluctant_sasl :: "nat SASLClient" where
  "reluctant_sasl =
     \<lparr>mechanism = ''PLAIN'',
      process_impl = (\<lambda>challenge e. (Inr [1], Suc e)),
      wrap_impl = (\<lambda>d e. (Inr d, e)),
      unwrap_impl = (\<lambda>d e. (Inr d, e)),
      complete_impl = (\<lambda>e. 3 \<le> e),
      engine = 0\<rparr>"

text \<open>A peer that answers \<open>OK\<close> with one byte and then \<open>COMPLETE\<close>.\<close>

definition ok_then_complete :: bytes where
  "ok_then_complete = [2, 0, 0, 0, 1, 9] @ [5, 0, 0, 0, 0]"

definition negotiating_reluctant :: "(duplex, nat) TSaslClientTransport" where
  "negotiating_reluctant =
     \<lparr>transport = scripted_transport ok_then_complete, sasl = reluctant_sasl,
      sasl_wbuf = BytesIO_new [], sasl_rbuf = BytesIO_new []\<rparr>"

text \<open>
  The transport \<open>negotiating [3, 0, 0, 0, 0]\<close> as \<open>open()\<close> leaves it when the peer
  answers \<open>BAD\<close>.
\<close>

definition rejected :: "(duplex, bool) TSaslClientTransport" where
  "rejected =
     (negotiating [3, 0, 0, 0, 0])
       \<lparr>transport := (scripted_transport [3, 0, 0, 0, 0])
          \<lparr>chan := \<lparr>inbox = [], outbox = [1, 0, 0, 0, 5, 80, 76, 65, 73, 78, 2, 0, 0, 0, 1, 1]\<rparr>,
           calls := [CallIsOpen (Inr True),
                     CallWrite [1, 0, 0, 0, 5, 80, 76, 65, 73, 78] (Inr ()), CallFlush (Inr ()),
                     CallWrite [2, 0, 0, 0, 1, 1] (Inr ()), CallFlush (Inr ()),
                     CallRead 5 (Inr [3, 0, 0, 0, 0])]\<rparr>,
        sasl := plain_sasl\<lparr>engine := True\<rparr>\<rparr>"

subsection \<open>Where an exception came from\<close>


text \<open>An underlying transport whose \<open>read\<close> raises, as a socket that times out does.\<close>

definition timing_out :: "unit transport" where
  "timing_out =
     \<lparr>read_impl = (\<lambda>sz s. (Inl (ChannelError ''timed out''), s)),
      write_impl = (\<lambda>buf s. (Inr (), s)),
      flush_impl = (\<lambda>s. (Inr (), s)),
      isOpen_impl = (\<lambda>s. (Inr True, s)),
      open_impl = (\<lambda>s. (Inr (), s)),
      close_impl = (\<lambda>s. (Inr (), s)),
      chan = (), calls = []\<rparr>"






text \<open>The bytes that a \<open>TMemoryBuffer\<close> under a wrapping transport still has to deliver.\<close>

definition unread :: "TMemoryBuffer transport \<Rightarrow> nat" where
  "unread t = length (getvalue (buffer (chan t))) - pos (buffer (chan t))"

section \<open>Properties\<close>

subsection \<open>The record of calls\<close>

lemma calls_trans_read: "trans_read k t = (res, t1) \<Longrightarrow> calls t1 = calls t @ [CallRead k res]"
  by (auto simp: trans_read_def split: prod.splits)

lemma readAll_post_Nil: "missing \<le> 0 \<Longrightarrow> readAll_post missing buff [] (Inr buff)"
  by (simp add: readAll_post_def)

lemma readAll_post_eof:
  "0 < missing \<Longrightarrow> readAll_post missing buff [CallRead missing (Inr [])] (Inl EOFError)"
  by (simp add: readAll_post_def)

lemma readAll_post_raise:
  "0 < missing \<Longrightarrow> readAll_post missing buff [CallRead missing (Inl e)] (Inl e)"
  by (simp add: readAll_post_def)

lemma readAll_post_step:
  assumes m: "0 < missing" and c: "chunk \<noteq> []"
    and p: "readAll_post (missing - int (length chunk)) (buff @ chunk) new r"
  shows "readAll_post missing buff (CallRead missing (Inr chunk) # new) r"
proof -
  let ?c = "CallRead missing (Inr chunk)"
  from p have rq: "requests_ok (missing - int (length chunk)) new"
    by (simp add: readAll_post_def)
  with m have rq': "requests_ok missing (?c # new)" by simp
  from p consider
      (ok) "good_reads new" "r = Inr ((buff @ chunk) @ concat (read_chunks new))"
        "missing - int (length chunk) \<le> int (length (concat (read_chunks new)))"
    | (eof) pre k where "new = pre @ [CallRead k (Inr [])]" "good_reads pre" "r = Inl EOFError"
        "int (length (concat (read_chunks pre))) < missing - int (length chunk)"
    | (raise) pre k e where "new = pre @ [CallRead k (Inl e)]" "good_reads pre" "r = Inl e"
        "int (length (concat (read_chunks pre))) < missing - int (length chunk)"
    unfolding readAll_post_def by blast
  then show ?thesis
  proof cases
    case ok
    with c rq' show ?thesis by (simp add: readAll_post_def)
  next
    case eof
    then have "?c # new = (?c # pre) @ [CallRead k (Inr [])]" "good_reads (?c # pre)"
      "int (length (concat (read_chunks (?c # pre)))) < missing"
      using c by simp_all
    with rq' eof(3) show ?thesis unfolding readAll_post_def by blast
  next
    case raise
    then have "?c # new = (?c # pre) @ [CallRead k (Inl e)]" "good_reads (?c # pre)"
      "int (length (concat (read_chunks (?c # pre)))) < missing"
      using c by simp_all
    with rq' raise(3) show ?thesis unfolding readAll_post_def by blast
  qed
qed

text \<open>The loop of \<open>readAll\<close>, by induction along its own recursion.\<close>

lemma readAll_loop_log:
  fixes t :: "'s transport"
  shows "readAll_loop trans_read sz buff have t = (r, t') \<Longrightarrow>
     \<exists>new. calls t' = calls t @ new \<and> readAll_post (sz - have) buff new r"
proof (induction "trans_read :: int \<Rightarrow> 's transport \<Rightarrow> (bytes, 's transport) outcome"
    sz buff "have" t arbitrary: r t' rule: readAll_loop.induct)
  case (1 sz buff "have" s)
  show ?case
  proof (cases "have < sz")
    case False
    with "1.prems" show ?thesis by (auto intro: readAll_post_Nil)
  next
    case True
    obtain res s1 where rd: "trans_read (sz - have) s = (res, s1)"
      by (cases "trans_read (sz - have) s")
    note c1 = calls_trans_read[OF rd]
    show ?thesis
    proof (cases res)
      case (Inl e)
      with True rd "1.prems" have "r = Inl e" "t' = s1" by auto
      with c1 Inl True show ?thesis
        by (auto intro!: exI[of _ "[CallRead (sz - have) (Inl e)]"] readAll_post_raise)
    next
      case (Inr chunk)
      show ?thesis
      proof (cases "chunk = []")
        case True
        with Inr \<open>have < sz\<close> rd "1.prems" have "r = Inl EOFError" "t' = s1" by auto
        with c1 Inr True \<open>have < sz\<close> show ?thesis
          by (auto intro!: exI[of _ "[CallRead (sz - have) (Inr [])]"] readAll_post_eof)
      next
        case False
        with Inr \<open>have < sz\<close> rd "1.prems"
        have rec: "readAll_loop trans_read sz (buff @ chunk) (have + int (length chunk)) s1 = (r, t')"
          by auto
        from "1.hyps"[OF \<open>have < sz\<close> rd[symmetric] _ _ rec] Inr False
        obtain new where n: "calls t' = calls s1 @ new"
          "readAll_post (sz - (have + int (length chunk))) (buff @ chunk) new r" by auto
        have "readAll_post (sz - have) buff (CallRead (sz - have) (Inr chunk) # new) r"
          using readAll_post_step[of "sz - have" chunk buff new r] \<open>have < sz\<close> False n(2)
          by (simp add: algebra_simps)
        with n(1) c1 Inr show ?thesis by auto
      qed
    qed
  qed
qed

lemma within_request_total:
  "requests_ok missing new \<Longrightarrow> good_reads new \<Longrightarrow> within_request new \<Longrightarrow> 0 \<le> missing
     \<Longrightarrow> int (length (concat (read_chunks new))) \<le> missing"
proof (induction missing new rule: requests_ok.induct)
  case (2 missing k r cs)
  then show ?case by (cases r) auto
qed auto

lemma readAll_two_of_three:
  "trans_readAll 2 (memory_transport three_bytes) =
     (Inr [1, 2],
      (memory_transport three_bytes)
        \<lparr>chan := \<lparr>buffer = \<lparr>getvalue = [1, 2, 3], pos = 2\<rparr>, closed = False\<rparr>,
         calls := [CallRead 2 (Inr [1, 2])]\<rparr>)"
  by (simp add: trans_readAll_def readAll_def trans_read_def memory_transport_def three_bytes_def
      TMemoryBuffer_read_def BytesIO_read_def BytesIO_new_def Let_def)

text \<open>Three bytes are there and five are asked for: the second read is empty.\<close>

lemma readAll_five_of_three:
  "fst (trans_readAll 5 (memory_transport three_bytes)) = Inl EOFError"
  by (simp add: trans_readAll_def readAll_def trans_read_def memory_transport_def three_bytes_def
      TMemoryBuffer_read_def BytesIO_read_def BytesIO_new_def Let_def)

subsection \<open>C1: \<open>readAll\<close> returns all the bytes or raises\<close>

text \<open>
  C1. For every transport that inherits \<open>readAll\<close> and every \<open>n\<close>, \<open>readAll(n)\<close> makes
  only \<open>read\<close> calls, each asking for the bytes still missing, and ends in one of three
  ways. Every read returned a non-empty chunk: it returns the chunks concatenated in
  order, at least \<open>n\<close> bytes, and exactly \<open>n\<close> when \<open>n\<close> is not negative and no read
  returned more than it was asked for. The last read returned no bytes while fewer than
  \<open>n\<close> were held: it raises the end-of-stream error, Python's \<open>EOFError\<close>. The last read
  raised while fewer than \<open>n\<close> were held: that exception leaves \<open>readAll\<close>. So it never
  returns fewer than \<open>n\<close> bytes.
\<close>

theorem readAll_exact_or_eof:
  fixes t :: "'s transport"
  assumes "trans_readAll n t = (r, t')"
  shows "\<exists>new. calls t' = calls t @ new \<and> requests_ok n new \<and>
           ((good_reads new \<and> r = Inr (concat (read_chunks new))
               \<and> n \<le> int (length (concat (read_chunks new)))
               \<and> (0 \<le> n \<and> within_request new \<longrightarrow> int (length (concat (read_chunks new))) = n))
            \<or> (\<exists>pre k. new = pre @ [CallRead k (Inr [])] \<and> good_reads pre \<and> r = Inl EOFError
                  \<and> int (length (concat (read_chunks pre))) < n)
            \<or> (\<exists>pre k e. new = pre @ [CallRead k (Inl e)] \<and> good_reads pre \<and> r = Inl e
                  \<and> int (length (concat (read_chunks pre))) < n))"
proof -
  from assms have "readAll_loop trans_read n [] 0 t = (r, t')"
    by (simp add: trans_readAll_def readAll_def)
  from readAll_loop_log[OF this] obtain new where
    c: "calls t' = calls t @ new" and p: "readAll_post n [] new r" by auto
  from p have rq: "requests_ok n new" by (simp add: readAll_post_def)
  have ex: "good_reads new \<Longrightarrow> 0 \<le> n \<and> within_request new
      \<longrightarrow> int (length (concat (read_chunks new))) \<le> n"
    using within_request_total[OF rq] by blast
  from p c rq ex show ?thesis
    unfolding readAll_post_def by (intro exI[of _ new]) force
qed

theorem readAll_exact_or_eof_witness:
  "trans_readAll 2 (memory_transport three_bytes) =
     (Inr [1, 2],
      (memory_transport three_bytes)
        \<lparr>chan := \<lparr>buffer = \<lparr>getvalue = [1, 2, 3], pos = 2\<rparr>, closed = False\<rparr>,
         calls := [CallRead 2 (Inr [1, 2])]\<rparr>)
   \<and> (\<exists>new. new = [CallRead 2 (Inr [1, 2])] \<and> requests_ok 2 new \<and> good_reads new
         \<and> within_request new \<and> concat (read_chunks new) = [1, 2 :: byte])"
  using readAll_exact_or_eof[OF readAll_two_of_three] readAll_two_of_three
  by simp

subsection \<open>C10: \<open>readAll\<close> of a size that is not positive\<close>

lemma readAll_nonpositive: "sz \<le> 0 \<Longrightarrow> readAll rd sz s = (Inr [], s)"
  by (simp add: readAll_def)

lemma readAll_negative_header:
  "trans_readAll 4 (memory_transport negative_header) =
     (Inr [255, 255, 255, 254],
      (memory_transport negative_header)
        \<lparr>chan := \<lparr>buffer = \<lparr>getvalue = [255, 255, 255, 254, 1, 2, 3], pos = 4\<rparr>, closed = False\<rparr>,
         calls := [CallRead 4 (Inr [255, 255, 255, 254])]\<rparr>)"
  by (simp add: trans_readAll_def readAll_def trans_read_def memory_transport_def negative_header_def
      TMemoryBuffer_read_def BytesIO_read_def BytesIO_new_def Let_def)

text \<open>
  C10. For every \<open>sz \<le> 0\<close>, \<open>readAll(sz)\<close> returns the empty byte string and leaves
  the transport as it was, the record of calls included: no \<open>read\<close> is made. So when
  \<open>readFrame\<close> has read a four-byte header that decodes, as a signed big-endian 32-bit
  integer, to a negative size, it raises nothing, reads nothing more and installs an
  empty read buffer.
\<close>

theorem nonpositive_size_reads_nothing:
  fixes t :: "'s transport" and self :: "'s TFramedTransport"
  shows "(sz \<le> 0 \<longrightarrow> readAll rd sz s = (Inr [], s) \<and> trans_readAll sz t = (Inr [], t))
       \<and> (trans_readAll 4 (framed_trans self) = (Inr header, t') \<and> unpack_i header = Inr n \<and> n < 0
            \<longrightarrow> TFramedTransport_readFrame self
                  = (Inr (), self\<lparr>framed_trans := t', framed_rbuf := BytesIO_new []\<rparr>))"
  by (auto simp: readAll_nonpositive trans_readAll_def TFramedTransport_readFrame_def)

theorem nonpositive_size_reads_nothing_witness:
  "trans_readAll (- 2) (memory_transport negative_header) = (Inr [], memory_transport negative_header)
   \<and> TFramedTransport_readFrame (TFramedTransport_init (memory_transport negative_header))
       = (Inr (),
          (TFramedTransport_init (memory_transport negative_header))
            \<lparr>framed_trans := (memory_transport negative_header)
               \<lparr>chan := \<lparr>buffer = \<lparr>getvalue = [255, 255, 255, 254, 1, 2, 3], pos = 4\<rparr>,
                          closed = False\<rparr>,
                calls := [CallRead 4 (Inr [255, 255, 255, 254])]\<rparr>,
             framed_rbuf := BytesIO_new []\<rparr>)"
proof (rule conjI)
  show "trans_readAll (- 2) (memory_transport negative_header)
      = (Inr [], memory_transport negative_header)"
    using nonpositive_size_reads_nothing[where sz = "- 2" and t = "memory_transport negative_header"
        and rd = TMemoryBuffer_read and s = negative_header, THEN conjunct1]
    by simp
next
  show "TFramedTransport_readFrame (TFramedTransport_init (memory_transport negative_header))
       = (Inr (),
          (TFramedTransport_init (memory_transport negative_header))
            \<lparr>framed_trans := (memory_transport negative_header)
               \<lparr>chan := \<lparr>buffer = \<lparr>getvalue = [255, 255, 255, 254, 1, 2, 3], pos = 4\<rparr>,
                          closed = False\<rparr>,
                calls := [CallRead 4 (Inr [255, 255, 255, 254])]\<rparr>,
             framed_rbuf := BytesIO_new []\<rparr>)"
    by (rule nonpositive_size_reads_nothing[where header = "[255, 255, 255, 254]" and n = "- 2",
          THEN conjunct2, THEN mp])
      (simp add: readAll_negative_header from_be32_def TFramedTransport_init_def)
qed

subsection \<open>C6: \<open>TBufferedTransport.read\<close>\<close>

lemma BytesIO_read_zero: "BytesIO_read 0 b = ([], b)"
  by (simp add: BytesIO_read_def)

lemma BytesIO_read_empty:
  "length (getvalue b) \<le> pos b \<Longrightarrow> BytesIO_read sz b = ([], b)"
  by (simp add: BytesIO_read_def)

lemma BytesIO_read_nonempty:
  "pos b < length (getvalue b) \<Longrightarrow> sz \<noteq> 0 \<Longrightarrow> fst (BytesIO_read sz b) \<noteq> []"
  by (auto simp: BytesIO_read_def Let_def)

lemma read_ten_of_ten:
  "TBufferedTransport_read 10 (TBufferedTransport_init (memory_transport ten_bytes) DEFAULT_BUFFER) =
     (Inr [1, 2, 3, 4, 5, 6, 7, 8, 9, 10],
      \<lparr>buffered_trans = (memory_transport ten_bytes)
          \<lparr>chan := \<lparr>buffer = \<lparr>getvalue = [1, 2, 3, 4, 5, 6, 7, 8, 9, 10], pos = 10\<rparr>,
                     closed = False\<rparr>,
           calls := [CallRead 4096 (Inr [1, 2, 3, 4, 5, 6, 7, 8, 9, 10])]\<rparr>,
       buffered_wbuf = BytesIO_new [],
       buffered_rbuf = \<lparr>getvalue = [1, 2, 3, 4, 5, 6, 7, 8, 9, 10], pos = 10\<rparr>,
       buffered_rbuf_size = 4096\<rparr>)"
  by (simp add: TBufferedTransport_read_def TBufferedTransport_init_def DEFAULT_BUFFER_def
      trans_read_def memory_transport_def ten_bytes_def TMemoryBuffer_read_def BytesIO_read_def
      BytesIO_new_def Let_def)

text \<open>
  C6, as amended. For \<open>TBufferedTransport\<close> with read window \<open>W\<close>: when \<open>sz\<close> is not 0
  and the read buffer has unread bytes, \<open>read(sz)\<close> returns a non-empty result taken
  from the buffer, advances its cursor and makes no call on the underlying transport.
  When the read buffer is exhausted, \<open>read(sz)\<close> makes exactly one call on the
  underlying transport, \<open>read(max(sz, W))\<close>; if that raises, the exception leaves
  \<open>read\<close>, and otherwise the bytes fetched become a fresh read buffer and \<open>read(sz)\<close> of
  that buffer is returned.
\<close>

theorem buffered_read_serves_or_fetches:
  fixes self :: "'s TBufferedTransport"
  shows "(sz \<noteq> 0 \<and> pos (buffered_rbuf self) < length (getvalue (buffered_rbuf self)) \<longrightarrow>
           fst (BytesIO_read sz (buffered_rbuf self)) \<noteq> [] \<and>
           TBufferedTransport_read sz self =
             (Inr (fst (BytesIO_read sz (buffered_rbuf self))),
              self\<lparr>buffered_rbuf := snd (BytesIO_read sz (buffered_rbuf self))\<rparr>))
       \<and> (length (getvalue (buffered_rbuf self)) \<le> pos (buffered_rbuf self) \<longrightarrow>
           TBufferedTransport_read sz self =
             (case trans_read (max sz (buffered_rbuf_size self)) (buffered_trans self) of
                (Inl e, t') \<Rightarrow> (Inl e, self\<lparr>buffered_trans := t'\<rparr>)
              | (Inr fetched, t') \<Rightarrow>
                  (Inr (fst (BytesIO_read sz (BytesIO_new fetched))),
                   self\<lparr>buffered_rbuf := snd (BytesIO_read sz (BytesIO_new fetched)),
                        buffered_trans := t'\<rparr>))
           \<and> (\<exists>r. calls (buffered_trans (snd (TBufferedTransport_read sz self)))
                 = calls (buffered_trans self) @ [CallRead (max sz (buffered_rbuf_size self)) r]))"
proof (intro conjI impI)
  assume a: "sz \<noteq> 0 \<and> pos (buffered_rbuf self) < length (getvalue (buffered_rbuf self))"
  then show ne: "fst (BytesIO_read sz (buffered_rbuf self)) \<noteq> []"
    by (simp add: BytesIO_read_nonempty)
  then show "TBufferedTransport_read sz self =
             (Inr (fst (BytesIO_read sz (buffered_rbuf self))),
              self\<lparr>buffered_rbuf := snd (BytesIO_read sz (buffered_rbuf self))\<rparr>)"
    by (cases "BytesIO_read sz (buffered_rbuf self)") (simp add: TBufferedTransport_read_def)
next
  assume e: "length (getvalue (buffered_rbuf self)) \<le> pos (buffered_rbuf self)"
  show "TBufferedTransport_read sz self =
             (case trans_read (max sz (buffered_rbuf_size self)) (buffered_trans self) of
                (Inl e, t') \<Rightarrow> (Inl e, self\<lparr>buffered_trans := t'\<rparr>)
              | (Inr fetched, t') \<Rightarrow>
                  (Inr (fst (BytesIO_read sz (BytesIO_new fetched))),
                   self\<lparr>buffered_rbuf := snd (BytesIO_read sz (BytesIO_new fetched)),
                        buffered_trans := t'\<rparr>))"
    by (simp add: TBufferedTransport_read_def BytesIO_read_empty[OF e] split: prod.splits sum.splits)
  obtain r t' where rd: "trans_read (max sz (buffered_rbuf_size self)) (buffered_trans self) = (r, t')"
    by (cases "trans_read (max sz (buffered_rbuf_size self)) (buffered_trans self)")
  from calls_trans_read[OF rd] rd
  show "\<exists>r. calls (buffered_trans (snd (TBufferedTransport_read sz self)))
                 = calls (buffered_trans self) @ [CallRead (max sz (buffered_rbuf_size self)) r]"
    by (cases r) (auto simp: TBufferedTransport_read_def BytesIO_read_empty[OF e] split: prod.splits)
qed

theorem buffered_read_serves_or_fetches_witness:
  "(fst (BytesIO_read 2 (buffered_rbuf unread_buffered)) = [7, 8]
    \<and> TBufferedTransport_read 2 unread_buffered
        = (Inr [7, 8], unread_buffered\<lparr>buffered_rbuf := \<lparr>getvalue = [7, 8, 9], pos = 2\<rparr>\<rparr>))
   \<and> (fst (TBufferedTransport_read 10
              (TBufferedTransport_init (memory_transport ten_bytes) DEFAULT_BUFFER))
         = Inr [1, 2, 3, 4, 5, 6, 7, 8, 9, 10]
       \<and> (\<exists>r. calls (buffered_trans (snd (TBufferedTransport_read 10
                   (TBufferedTransport_init (memory_transport ten_bytes) DEFAULT_BUFFER))))
               = [] @ [CallRead 4096 r]))"
proof (rule conjI)
  have ne: "(2::int) \<noteq> 0 \<and> pos (buffered_rbuf unread_buffered)
      < length (getvalue (buffered_rbuf unread_buffered))"
    by (simp add: unread_buffered_def BytesIO_new_def)
  from buffered_read_serves_or_fetches[where sz = 2 and self = unread_buffered,
      THEN conjunct1, THEN mp, OF ne]
  show "fst (BytesIO_read 2 (buffered_rbuf unread_buffered)) = [7, 8]
    \<and> TBufferedTransport_read 2 unread_buffered
        = (Inr [7, 8], unread_buffered\<lparr>buffered_rbuf := \<lparr>getvalue = [7, 8, 9], pos = 2\<rparr>\<rparr>)"
    by (simp add: unread_buffered_def BytesIO_new_def BytesIO_read_def Let_def)
next
  let ?X = "TBufferedTransport_init (memory_transport ten_bytes) DEFAULT_BUFFER"
  have e: "length (getvalue (buffered_rbuf ?X)) \<le> pos (buffered_rbuf ?X)"
    by (simp add: TBufferedTransport_init_def BytesIO_new_def)
  from buffered_read_serves_or_fetches[where sz = 10 and self = ?X,
      THEN conjunct2, THEN mp, OF e, THEN conjunct2]
  have "\<exists>r. calls (buffered_trans (snd (TBufferedTransport_read 10 ?X))) = [] @ [CallRead 4096 r]"
    by (simp add: TBufferedTransport_init_def DEFAULT_BUFFER_def memory_transport_def)
  then show "fst (TBufferedTransport_read 10 ?X) = Inr [1, 2, 3, 4, 5, 6, 7, 8, 9, 10]
       \<and> (\<exists>r. calls (buffered_trans (snd (TBufferedTransport_read 10 ?X))) = [] @ [CallRead 4096 r])"
    by (simp add: read_ten_of_ten)
qed

text \<open>
  With \<open>sz = 0\<close> the claim of C6 fails: three bytes are unread in the buffer, and
  \<open>read(0)\<close> still fetches from the underlying transport and replaces the buffer.
\<close>

theorem read_zero_fetches_counterexample:
  "pos (buffered_rbuf unread_buffered) < length (getvalue (buffered_rbuf unread_buffered))
   \<and> getvalue (buffered_rbuf unread_buffered) = [7, 8, 9]
   \<and> fst (TBufferedTransport_read 0 unread_buffered) = Inr []
   \<and> calls (buffered_trans (snd (TBufferedTransport_read 0 unread_buffered)))
       = [CallRead 4096 (Inr [1, 2, 3])]
   \<and> buffered_rbuf (snd (TBufferedTransport_read 0 unread_buffered)) = BytesIO_new [1, 2, 3]"
  by (simp add: TBufferedTransport_read_def unread_buffered_def DEFAULT_BUFFER_def
      trans_read_def memory_transport_def three_bytes_def TMemoryBuffer_read_def BytesIO_read_def
      BytesIO_new_def Let_def)

subsection \<open>C9: \<open>read(0)\<close> replaces the read buffer\<close>

lemma readAll_post_first:
  "readAll_post missing buff new r \<Longrightarrow> 0 < missing \<Longrightarrow> \<exists>res more. new = CallRead missing res # more"
proof -
  assume p: "readAll_post missing buff new r" and m: "0 < missing"
  from p have rq: "requests_ok missing new" by (simp add: readAll_post_def)
  from p m have "new \<noteq> []" by (auto simp: readAll_post_def)
  then obtain c more where n: "new = c # more" by (cases new) auto
  with rq show ?thesis by (cases c) auto
qed

lemma trans_readAll_calls:
  fixes t :: "'s transport"
  assumes "trans_readAll sz t = (r, t')"
  shows "\<exists>new. calls t' = calls t @ new \<and> (0 < sz \<longrightarrow> (\<exists>res more. new = CallRead sz res # more))"
proof -
  from assms have "readAll_loop trans_read sz [] 0 t = (r, t')"
    by (simp add: trans_readAll_def readAll_def)
  from readAll_loop_log[OF this] obtain new where
    c: "calls t' = calls t @ new" and p: "readAll_post sz [] new r" by auto
  from readAll_post_first[OF p] c show ?thesis by auto
qed

lemma readFrame_calls:
  fixes self :: "'s TFramedTransport"
  shows "\<exists>res more. calls (framed_trans (snd (TFramedTransport_readFrame self)))
            = calls (framed_trans self) @ CallRead 4 res # more"
proof -
  obtain r t1 where h: "trans_readAll 4 (framed_trans self) = (r, t1)"
    by (cases "trans_readAll 4 (framed_trans self)")
  from trans_readAll_calls[OF h] obtain res more where
    c1: "calls t1 = calls (framed_trans self) @ CallRead 4 res # more" by auto
  show ?thesis
  proof (cases r)
    case (Inl e)
    with h c1 show ?thesis by (auto simp: TFramedTransport_readFrame_def)
  next
    case (Inr header)
    show ?thesis
    proof (cases "unpack_i header")
      case (Inl e)
      with Inr h c1 show ?thesis by (auto simp: TFramedTransport_readFrame_def)
    next
      case (Inr n)
      obtain r2 t2 where h2: "trans_readAll n t1 = (r2, t2)" by (cases "trans_readAll n t1")
      from trans_readAll_calls[OF h2] obtain new where "calls t2 = calls t1 @ new" by auto
      with c1 have "calls t2 = calls (framed_trans self) @ CallRead 4 res # (more @ new)" by simp
      with Inr \<open>r = Inr header\<close> h h2 show ?thesis
        by (cases r2) (auto simp: TFramedTransport_readFrame_def)
    qed
  qed
qed


lemma read_frame_calls:
  fixes self :: "('s, 'e) TSaslClientTransport"
  shows "\<exists>res more. calls (transport (snd (read_frame self)))
            = calls (transport self) @ CallRead 4 res # more"
proof -
  obtain r t1 where h: "trans_readAll 4 (transport self) = (r, t1)"
    by (cases "trans_readAll 4 (transport self)")
  from trans_readAll_calls[OF h] obtain res more where
    c1: "calls t1 = calls (transport self) @ CallRead 4 res # more" by auto
  show ?thesis
  proof (cases r)
    case (Inl e)
    with h c1 show ?thesis by (auto simp: read_frame_def)
  next
    case (Inr header)
    show ?thesis
    proof (cases "unpack_i header")
      case (Inl e)
      with Inr h c1 show ?thesis by (auto simp: read_frame_def)
    next
      case (Inr n)
      obtain r2 t2 where h2: "trans_readAll n t1 = (r2, t2)" by (cases "trans_readAll n t1")
      from trans_readAll_calls[OF h2] obtain new where "calls t2 = calls t1 @ new" by auto
      with c1 have "calls t2 = calls (transport self) @ CallRead 4 res # (more @ new)" by simp
      with Inr \<open>r = Inr header\<close> h h2 show ?thesis
        by (cases r2) (auto simp: read_frame_def split: prod.splits sum.splits)
    qed
  qed
qed

lemma readFrame_fresh:
  "TFramedTransport_readFrame self = (Inr u, self') \<Longrightarrow>
     \<exists>header t1 n payload t2.
        trans_readAll 4 (framed_trans self) = (Inr header, t1) \<and> unpack_i header = Inr n
        \<and> trans_readAll n t1 = (Inr payload, t2)
        \<and> self' = self\<lparr>framed_trans := t2, framed_rbuf := BytesIO_new payload\<rparr>"
  by (auto simp: TFramedTransport_readFrame_def split: prod.splits sum.splits)

lemma read_frame_fresh:
  "read_frame self = (Inr u, self') \<Longrightarrow>
     \<exists>header t1 n encoded t2 decoded c'.
        trans_readAll 4 (transport self) = (Inr header, t1) \<and> unpack_i header = Inr n
        \<and> trans_readAll n t1 = (Inr encoded, t2)
        \<and> sasl_unwrap encoded (sasl self) = (Inr decoded, c')
        \<and> self' = self\<lparr>transport := t2, sasl := c', sasl_rbuf := BytesIO_new decoded\<rparr>"
  by (auto simp: read_frame_def split: prod.splits sum.splits)

lemma readFrame_unread_framed:
  "TFramedTransport_readFrame unread_framed =
     (Inr (),
      unread_framed
        \<lparr>framed_trans := (framed_trans unread_framed)
            \<lparr>chan := \<lparr>buffer = \<lparr>getvalue = [0, 0, 0, 2, 10, 11], pos = 6\<rparr>, closed = False\<rparr>,
             calls := [CallRead 4 (Inr [0, 0, 0, 2]), CallRead 2 (Inr [10, 11])]\<rparr>,
         framed_rbuf := BytesIO_new [10, 11]\<rparr>)"
  by (simp add: TFramedTransport_readFrame_def unread_framed_def trans_readAll_def readAll_def
      trans_read_def memory_transport_def TMemoryBuffer_read_def BytesIO_read_def BytesIO_new_def
      from_be32_def Let_def)


lemma read_frame_unread_sasl:
  "read_frame unread_sasl =
     (Inr (),
      unread_sasl
        \<lparr>transport := (transport unread_sasl)
            \<lparr>chan := \<lparr>buffer = \<lparr>getvalue = [0, 0, 0, 2, 10, 11], pos = 6\<rparr>, closed = False\<rparr>,
             calls := [CallRead 4 (Inr [0, 0, 0, 2]), CallRead 2 (Inr [10, 11])]\<rparr>,
         sasl_rbuf := BytesIO_new [10, 11]\<rparr>)"
  by (simp add: read_frame_def unread_sasl_def plain_sasl_def sasl_unwrap_def trans_readAll_def
      readAll_def trans_read_def memory_transport_def TMemoryBuffer_read_def BytesIO_read_def
      BytesIO_new_def from_be32_def Let_def)

text \<open>
  C9. For \<open>TBufferedTransport\<close>, \<open>TFramedTransport\<close> and \<open>TSaslClientTransport\<close>,
  \<open>read(0)\<close> never returns bytes of the read buffer: whatever the buffer holds, it
  goes to the underlying transport (one \<open>read(max(0, W))\<close>, or a frame read that starts
  with \<open>read(4)\<close>). When that refill succeeds the read buffer is a fresh one over the
  bytes fetched (the payload of the frame, unwrapped for the secure transport), so the
  bytes that were unread are gone, and \<open>read(0)\<close> returns the empty byte string; when
  the refill raises, the exception leaves \<open>read\<close>.
\<close>

theorem read_zero_always_refills:
  fixes bself :: "'s TBufferedTransport" and fself :: "'s TFramedTransport"
    and sself :: "('s, 'e) TSaslClientTransport"
  shows "TBufferedTransport_read 0 bself =
           (case trans_read (max 0 (buffered_rbuf_size bself)) (buffered_trans bself) of
              (Inl e, t') \<Rightarrow> (Inl e, bself\<lparr>buffered_trans := t'\<rparr>)
            | (Inr fetched, t') \<Rightarrow>
                (Inr [], bself\<lparr>buffered_rbuf := BytesIO_new fetched, buffered_trans := t'\<rparr>))
       \<and> TFramedTransport_read 0 fself =
           (case TFramedTransport_readFrame fself of
              (Inl e, self') \<Rightarrow> (Inl e, self') | (Inr u, self') \<Rightarrow> (Inr [], self'))
       \<and> (\<exists>res more. calls (framed_trans (snd (TFramedTransport_read 0 fself)))
            = calls (framed_trans fself) @ CallRead 4 res # more)
       \<and> (\<forall>u self'. TFramedTransport_readFrame fself = (Inr u, self') \<longrightarrow>
            (\<exists>header t1 n payload t2.
               trans_readAll 4 (framed_trans fself) = (Inr header, t1) \<and> unpack_i header = Inr n
               \<and> trans_readAll n t1 = (Inr payload, t2)
               \<and> self' = fself\<lparr>framed_trans := t2, framed_rbuf := BytesIO_new payload\<rparr>))
       \<and> TSaslClientTransport_read 0 sself =
           (case read_frame sself of
              (Inl e, self') \<Rightarrow> (Inl e, self') | (Inr u, self') \<Rightarrow> (Inr [], self'))
       \<and> (\<exists>res more. calls (transport (snd (TSaslClientTransport_read 0 sself)))
            = calls (transport sself) @ CallRead 4 res # more)
       \<and> (\<forall>u self'. read_frame sself = (Inr u, self') \<longrightarrow>
            (\<exists>header t1 n encoded t2 decoded c'.
               trans_readAll 4 (transport sself) = (Inr header, t1) \<and> unpack_i header = Inr n
               \<and> trans_readAll n t1 = (Inr encoded, t2)
               \<and> sasl_unwrap encoded (sasl sself) = (Inr decoded, c')
               \<and> self' = sself\<lparr>transport := t2, sasl := c', sasl_rbuf := BytesIO_new decoded\<rparr>))"
proof (intro conjI allI impI)
  show "TBufferedTransport_read 0 bself =
           (case trans_read (max 0 (buffered_rbuf_size bself)) (buffered_trans bself) of
              (Inl e, t') \<Rightarrow> (Inl e, bself\<lparr>buffered_trans := t'\<rparr>)
            | (Inr fetched, t') \<Rightarrow>
                (Inr [], bself\<lparr>buffered_rbuf := BytesIO_new fetched, buffered_trans := t'\<rparr>))"
    by (simp add: TBufferedTransport_read_def BytesIO_read_zero split: prod.splits sum.splits)
  show f: "TFramedTransport_read 0 fself =
           (case TFramedTransport_readFrame fself of
              (Inl e, self') \<Rightarrow> (Inl e, self') | (Inr u, self') \<Rightarrow> (Inr [], self'))"
    by (simp add: TFramedTransport_read_def BytesIO_read_zero split: prod.splits sum.splits)
  show s: "TSaslClientTransport_read 0 sself =
           (case read_frame sself of
              (Inl e, self') \<Rightarrow> (Inl e, self') | (Inr u, self') \<Rightarrow> (Inr [], self'))"
    by (simp add: TSaslClientTransport_read_def BytesIO_read_zero split: prod.splits sum.splits)
  have "snd (TFramedTransport_read 0 fself) = snd (TFramedTransport_readFrame fself)"
    unfolding f by (simp split: prod.splits sum.splits)
  with readFrame_calls[of fself]
  show "\<exists>res more. calls (framed_trans (snd (TFramedTransport_read 0 fself)))
            = calls (framed_trans fself) @ CallRead 4 res # more" by simp
  have "snd (TSaslClientTransport_read 0 sself) = snd (read_frame sself)"
    unfolding s by (simp split: prod.splits sum.splits)
  with read_frame_calls[of sself]
  show "\<exists>res more. calls (transport (snd (TSaslClientTransport_read 0 sself)))
            = calls (transport sself) @ CallRead 4 res # more" by simp
next
  fix u self' assume "TFramedTransport_readFrame fself = (Inr u, self')"
  then show "\<exists>header t1 n payload t2.
               trans_readAll 4 (framed_trans fself) = (Inr header, t1) \<and> unpack_i header = Inr n
               \<and> trans_readAll n t1 = (Inr payload, t2)
               \<and> self' = fself\<lparr>framed_trans := t2, framed_rbuf := BytesIO_new payload\<rparr>"
    by (rule readFrame_fresh)
next
  fix u self' assume "read_frame sself = (Inr u, self')"
  then show "\<exists>header t1 n encoded t2 decoded c'.
               trans_readAll 4 (transport sself) = (Inr header, t1) \<and> unpack_i header = Inr n
               \<and> trans_readAll n t1 = (Inr encoded, t2)
               \<and> sasl_unwrap encoded (sasl sself) = (Inr decoded, c')
               \<and> self' = sself\<lparr>transport := t2, sasl := c', sasl_rbuf := BytesIO_new decoded\<rparr>"
    by (rule read_frame_fresh)
qed

theorem read_zero_always_refills_witness:
  "(getvalue (framed_rbuf unread_framed) = [7, 8, 9] \<and> pos (framed_rbuf unread_framed) = 0
    \<and> fst (TFramedTransport_read 0 unread_framed) = Inr []
    \<and> framed_rbuf (snd (TFramedTransport_read 0 unread_framed)) = BytesIO_new [10, 11]
    \<and> (\<exists>header t1 n payload t2.
          trans_readAll 4 (framed_trans unread_framed) = (Inr header, t1) \<and> unpack_i header = Inr n
          \<and> trans_readAll n t1 = (Inr payload, t2) \<and> BytesIO_new [10, 11] = BytesIO_new payload))
   \<and> (getvalue (sasl_rbuf unread_sasl) = [7, 8, 9] \<and> pos (sasl_rbuf unread_sasl) = 0
    \<and> fst (TSaslClientTransport_read 0 unread_sasl) = Inr []
    \<and> sasl_rbuf (snd (TSaslClientTransport_read 0 unread_sasl)) = BytesIO_new [10, 11]
    \<and> (\<exists>header t1 n encoded t2 decoded c'.
          trans_readAll 4 (transport unread_sasl) = (Inr header, t1) \<and> unpack_i header = Inr n
          \<and> trans_readAll n t1 = (Inr encoded, t2)
          \<and> sasl_unwrap encoded (sasl unread_sasl) = (Inr decoded, c')
          \<and> BytesIO_new [10, 11] = BytesIO_new decoded))"
proof -
  note th = read_zero_always_refills[where fself = unread_framed and sself = unread_sasl]
  note f_eq = th[THEN conjunct2, THEN conjunct1]
  note f_fresh = th[THEN conjunct2, THEN conjunct2, THEN conjunct2, THEN conjunct1,
      rule_format, OF readFrame_unread_framed]
  note s_eq = th[THEN conjunct2, THEN conjunct2, THEN conjunct2, THEN conjunct2, THEN conjunct1]
  note s_fresh = th[THEN conjunct2, THEN conjunct2, THEN conjunct2, THEN conjunct2,
      THEN conjunct2, THEN conjunct2, rule_format, OF read_frame_unread_sasl]
  have f1: "getvalue (framed_rbuf unread_framed) = [7, 8, 9] \<and> pos (framed_rbuf unread_framed) = 0"
    by (simp add: unread_framed_def BytesIO_new_def)
  have f2: "fst (TFramedTransport_read 0 unread_framed) = Inr []
    \<and> framed_rbuf (snd (TFramedTransport_read 0 unread_framed)) = BytesIO_new [10, 11]"
    by (simp add: f_eq readFrame_unread_framed)
  from f_fresh obtain header t1 n payload t2 where
    fa: "trans_readAll 4 (framed_trans unread_framed) = (Inr header, t1)" "unpack_i header = Inr n"
      "trans_readAll n t1 = (Inr payload, t2)"
    and fe: "unread_framed
        \<lparr>framed_trans := (framed_trans unread_framed)
            \<lparr>chan := \<lparr>buffer = \<lparr>getvalue = [0, 0, 0, 2, 10, 11], pos = 6\<rparr>, closed = False\<rparr>,
             calls := [CallRead 4 (Inr [0, 0, 0, 2]), CallRead 2 (Inr [10, 11])]\<rparr>,
         framed_rbuf := BytesIO_new [10, 11]\<rparr>
      = unread_framed\<lparr>framed_trans := t2, framed_rbuf := BytesIO_new payload\<rparr>"
    by blast
  from arg_cong[OF fe, of framed_rbuf] have "BytesIO_new [10, 11] = BytesIO_new payload" by simp
  with fa have f3: "\<exists>header t1 n payload t2.
          trans_readAll 4 (framed_trans unread_framed) = (Inr header, t1) \<and> unpack_i header = Inr n
          \<and> trans_readAll n t1 = (Inr payload, t2) \<and> BytesIO_new [10, 11] = BytesIO_new payload"
    by blast
  have s1: "getvalue (sasl_rbuf unread_sasl) = [7, 8, 9] \<and> pos (sasl_rbuf unread_sasl) = 0"
    by (simp add: unread_sasl_def BytesIO_new_def)
  have s2: "fst (TSaslClientTransport_read 0 unread_sasl) = Inr []
    \<and> sasl_rbuf (snd (TSaslClientTransport_read 0 unread_sasl)) = BytesIO_new [10, 11]"
    by (simp add: s_eq read_frame_unread_sasl)
  from s_fresh obtain header t1 n encoded t2 decoded c' where
    sa: "trans_readAll 4 (transport unread_sasl) = (Inr header, t1)" "unpack_i header = Inr n"
      "trans_readAll n t1 = (Inr encoded, t2)"
      "sasl_unwrap encoded (sasl unread_sasl) = (Inr decoded, c')"
    and se: "unread_sasl
        \<lparr>transport := (transport unread_sasl)
            \<lparr>chan := \<lparr>buffer = \<lparr>getvalue = [0, 0, 0, 2, 10, 11], pos = 6\<rparr>, closed = False\<rparr>,
             calls := [CallRead 4 (Inr [0, 0, 0, 2]), CallRead 2 (Inr [10, 11])]\<rparr>,
         sasl_rbuf := BytesIO_new [10, 11]\<rparr>
      = unread_sasl\<lparr>transport := t2, sasl := c', sasl_rbuf := BytesIO_new decoded\<rparr>"
    by blast
  from arg_cong[OF se, of sasl_rbuf] have "BytesIO_new [10, 11] = BytesIO_new decoded" by simp
  with sa have s3: "\<exists>header t1 n encoded t2 decoded c'.
          trans_readAll 4 (transport unread_sasl) = (Inr header, t1) \<and> unpack_i header = Inr n
          \<and> trans_readAll n t1 = (Inr encoded, t2)
          \<and> sasl_unwrap encoded (sasl unread_sasl) = (Inr decoded, c')
          \<and> BytesIO_new [10, 11] = BytesIO_new decoded"
    by blast
  from f1 f2 f3 s1 s2 s3 show ?thesis by blast
qed

subsection \<open>The four bytes of \<open>pack\<close> and \<open>unpack\<close>\<close>

lemma uint_byte: "uint (word_of_int x :: byte) = x mod 256"
  by (simp add: uint_word_of_int)

lemma be32_split:
  fixes u :: int
  assumes "0 \<le> u" "u < 2 ^ 32"
  shows "(u div 2 ^ 24) mod 256 * 2 ^ 24 + (u div 2 ^ 16) mod 256 * 2 ^ 16
           + (u div 2 ^ 8) mod 256 * 2 ^ 8 + u mod 256 = u"
proof -
  define a where "a = u div 256"
  define b where "b = a div 256"
  define c where "c = b div 256"
  have ua: "u = a * 256 + u mod 256" by (simp add: a_def)
  have ab: "a = b * 256 + a mod 256" by (simp add: b_def)
  have bc: "b = c * 256 + b mod 256" by (simp add: c_def)
  have d8: "u div 2 ^ 8 = a" by (simp add: a_def)
  have d16: "u div 2 ^ 16 = b"
    using zdiv_zmult2_eq[of 256 u 256] by (simp add: a_def b_def)
  have d24: "u div 2 ^ 24 = c"
    using zdiv_zmult2_eq[of 256 u 65536] d16 zdiv_zmult2_eq[of 65536 u 256]
    by (simp add: c_def mult.commute)
  have "c < 256" using assms d24 by simp
  moreover have "0 \<le> c" using assms d24 by simp
  ultimately have cm: "c mod 256 = c" by simp
  show ?thesis unfolding d8 d16 d24 cm using ua ab bc by simp
qed


lemma byte_of_nat_mod: "(of_nat (k mod 256) :: byte) = of_nat k"
proof -
  have "unat (of_nat (k mod 256) :: byte) = unat (of_nat k :: byte)"
    by (simp add: unat_of_nat)
  then show ?thesis by (rule word_unat_eq_iff[THEN iffD2])
qed

lemma unpack_i_be32:
  assumes "0 \<le> u" "u < 2 ^ 32"
  shows "unpack_i (be32 u) = Inr (if 2 ^ 31 \<le> u then u - 2 ^ 32 else u)"
proof -
  have "from_be32 (word_of_int (u div 2 ^ 24)) (word_of_int (u div 2 ^ 16))
          (word_of_int (u div 2 ^ 8)) (word_of_int u) = u"
    unfolding from_be32_def uint_byte by (rule be32_split[OF assms])
  then show ?thesis unfolding be32_def unpack_i.simps Let_def by (simp only:)
qed

lemma unpack_pack_i:
  assumes "pack_i n = Inr header"
  shows "unpack_i header = Inr n \<and> length header = 4"
proof -
  from assms have r: "- (2 ^ 31) \<le> n" "n < 2 ^ 31" and h: "header = be32 (n mod 2 ^ 32)"
    by (auto simp: pack_i_def split: if_splits)
  have m: "0 \<le> n mod 2 ^ 32" "n mod 2 ^ 32 < 2 ^ 32" by simp_all
  have "(if 2 ^ 31 \<le> n mod 2 ^ 32 then n mod 2 ^ 32 - 2 ^ 32 else n mod 2 ^ 32) = n"
  proof (cases "0 \<le> n")
    case True
    with r have "n mod 2 ^ 32 = n" by simp
    with r show ?thesis by simp
  next
    case False
    with r have "n mod 2 ^ 32 = n + 2 ^ 32"
      using mod_add_self2[of n "2 ^ 32"] mod_pos_pos_trivial[of "n + 2 ^ 32" "2 ^ 32"] by simp
    with r False show ?thesis by simp
  qed
  with unpack_i_be32[OF m] h show ?thesis by (simp add: be32_def)
qed


lemma byte_of_int_div:
  "(word_of_int (int n div 2 ^ j) :: byte) = of_nat (n div 2 ^ j mod 256)"
proof -
  have "int n div 2 ^ j = int (n div 2 ^ j)" by (simp add: zdiv_int)
  then show ?thesis by (simp only: of_int_of_nat_eq byte_of_nat_mod)
qed

lemma be32_uint32_be: "be32 (int n) = uint32_be n"
proof -
  have "(word_of_int (int n) :: byte) = of_nat (n mod 256)"
    by (simp only: of_int_of_nat_eq byte_of_nat_mod)
  then show ?thesis
    unfolding be32_def uint32_be_def by (simp only: byte_of_int_div)
qed

lemma pack_i_uint32_be: "n < 2 ^ 31 \<Longrightarrow> pack_i (int n) = Inr (uint32_be n)"
proof -
  assume a: "n < 2 ^ 31"
  then have "int n < 2 ^ 31" by simp
  moreover from this have "int n mod 2 ^ 32 = int n" by simp
  ultimately show ?thesis by (simp add: pack_i_def be32_uint32_be)
qed

lemma pack_i_too_long: "2 ^ 31 \<le> n \<Longrightarrow> pack_i (int n) = Inl StructError"
proof -
  assume "2 ^ 31 \<le> n"
  then have "\<not> int n < 2 ^ 31" by simp
  then show ?thesis by (simp add: pack_i_def)
qed

lemma hello_header: "pack_i 5 = Inr [0, 0, 0, 5]"
  by (simp add: pack_i_def be32_def)

lemma top_bit_header: "unpack_i [128, 0, 0, 0] = Inr (- 2147483648) \<and> uint32_be (2 ^ 31) = [128, 0, 0, 0]"
  by (simp add: from_be32_def uint32_be_def)

subsection \<open>Frames over a \<open>TMemoryBuffer\<close>\<close>

lemma memory_readAll_enough:
  assumes "\<not> closed m" "0 < n" "nat n \<le> length (getvalue (buffer m)) - pos (buffer m)"
  shows "trans_readAll n ((memory_transport m0)\<lparr>chan := m, calls := cs\<rparr>) =
           (Inr (take (nat n) (drop (pos (buffer m)) (getvalue (buffer m)))),
            (memory_transport m0)
              \<lparr>chan := m\<lparr>buffer := (buffer m)\<lparr>pos := pos (buffer m) + nat n\<rparr>\<rparr>,
               calls := cs @ [CallRead n (Inr (take (nat n) (drop (pos (buffer m)) (getvalue (buffer m)))))]\<rparr>)"
  using assms
  by (simp add: trans_readAll_def readAll_def trans_read_def memory_transport_def
      TMemoryBuffer_read_def BytesIO_read_def Let_def min_def)

lemma BytesIO_write_fresh:
  "BytesIO_write (PyBytes P) (BytesIO_new []) = (Inr (), \<lparr>getvalue = P, pos = length P\<rparr>)"
  by (simp add: BytesIO_write_def BytesIO_new_def)

lemma framed_init_sel:
  "framed_trans (TFramedTransport_init t) = t"
  "framed_rbuf (TFramedTransport_init t) = BytesIO_new []"
  "framed_wbuf (TFramedTransport_init t) = BytesIO_new []"
  by (simp_all add: TFramedTransport_init_def)

lemma memory_transport_sel:
  "read_impl (memory_transport m) = TMemoryBuffer_read"
  "write_impl (memory_transport m) = (\<lambda>buf. TMemoryBuffer_write (PyBytes buf))"
  "flush_impl (memory_transport m) = TMemoryBuffer_flush"
  "chan (memory_transport m) = m"
  "calls (memory_transport m) = []"
  by (simp_all add: memory_transport_def)

lemma framed_write_fresh:
  "TFramedTransport_write (PyBytes P) (TFramedTransport_init t) =
     (Inr (), (TFramedTransport_init t)\<lparr>framed_wbuf := \<lparr>getvalue = P, pos = length P\<rparr>\<rparr>)"
  by (simp add: TFramedTransport_write_def framed_init_sel BytesIO_write_fresh)

lemma memory_write_fresh:
  "d \<noteq> [] \<Longrightarrow>
   trans_write d (memory_transport write_buffer) =
     (Inr (),
      (memory_transport write_buffer)
        \<lparr>chan := \<lparr>buffer = \<lparr>getvalue = d, pos = length d\<rparr>, closed = False\<rparr>,
         calls := [CallWrite d (Inr ())]\<rparr>)"
  by (simp add: trans_write_def memory_transport_sel write_buffer_def TMemoryBuffer_write_def
      BytesIO_write_def BytesIO_new_def)

lemma framed_on_wire_eq:
  "framed_on_wire P =
     (case pack_i (int (length P)) of Inl e \<Rightarrow> Inl e | Inr header \<Rightarrow> Inr (header @ P))"
proof (cases "pack_i (int (length P))")
  case (Inl e)
  then show ?thesis
    by (simp add: framed_on_wire_def framed_write_fresh TFramedTransport_flush_def Let_def)
next
  case (Inr header)
  from unpack_pack_i[OF this] have "header @ P \<noteq> []" by auto
  from memory_write_fresh[OF this] Inr show ?thesis
    by (simp add: framed_on_wire_def framed_write_fresh TFramedTransport_flush_def Let_def
        framed_init_sel trans_flush_def TMemoryBuffer_flush_def
        TMemoryBuffer_getvalue_def memory_transport_sel)
qed

lemma framed_read_back:
  assumes h: "pack_i (int (length P)) = Inr header"
  shows "fst (TFramedTransport_read (int (length P))
           (TFramedTransport_init (memory_transport \<lparr>buffer = BytesIO_new (header @ P), closed = False\<rparr>)))
         = Inr P"
proof -
  let ?m = "\<lparr>buffer = BytesIO_new (header @ P), closed = False\<rparr>"
  let ?t = "memory_transport ?m"
  from unpack_pack_i[OF h] have u: "unpack_i header = Inr (int (length P))" and l: "length header = 4"
    by auto
  have t0: "?t = (memory_transport ?m)\<lparr>chan := ?m, calls := []\<rparr>"
    by (simp add: memory_transport_def)
  let ?m1 = "\<lparr>buffer = \<lparr>getvalue = header @ P, pos = 4\<rparr>, closed = False\<rparr>"
  let ?t1 = "(memory_transport ?m)\<lparr>chan := ?m1, calls := [CallRead 4 (Inr header)]\<rparr>"
  have "trans_readAll 4 ((memory_transport ?m)\<lparr>chan := ?m, calls := []\<rparr>) = (Inr header, ?t1)"
    using memory_readAll_enough[where m = ?m and n = 4 and ?m0.0 = ?m and cs = "[]"] l
    by (simp add: BytesIO_new_def)
  with t0 have r4: "trans_readAll 4 ?t = (Inr header, ?t1)" by simp
  have rp: "fst (trans_readAll (int (length P)) ?t1) = Inr P"
  proof (cases "P = []")
    case True
    then show ?thesis by (simp add: trans_readAll_def readAll_def)
  next
    case False
    then show ?thesis
      using memory_readAll_enough[where m = ?m1 and n = "int (length P)" and ?m0.0 = ?m
          and cs = "[CallRead 4 (Inr header)]"] l
      by simp
  qed
  obtain t2 where rp': "trans_readAll (int (length P)) ?t1 = (Inr P, t2)"
    using rp by (cases "trans_readAll (int (length P)) ?t1") auto
  have rf: "TFramedTransport_readFrame (TFramedTransport_init ?t)
      = (Inr (), (TFramedTransport_init ?t)\<lparr>framed_trans := t2, framed_rbuf := BytesIO_new P\<rparr>)"
    unfolding TFramedTransport_readFrame_def
    by (simp add: framed_init_sel r4 u rp')
  have e: "BytesIO_read (int (length P)) (BytesIO_new []) = ([], BytesIO_new [])"
    by (simp add: BytesIO_read_def BytesIO_new_def)
  have i: "(TFramedTransport_init ?t)\<lparr>framed_rbuf := BytesIO_new []\<rparr> = TFramedTransport_init ?t"
    by (simp add: TFramedTransport_init_def)
  have p: "BytesIO_read (int (length P)) (BytesIO_new P) = (P, \<lparr>getvalue = P, pos = length P\<rparr>)"
    by (simp add: BytesIO_read_def BytesIO_new_def Let_def)
  show ?thesis
    unfolding TFramedTransport_read_def
    by (simp add: framed_init_sel e i rf p)
qed

lemma framed_roundtrip_eq:
  "framed_roundtrip P = (case pack_i (int (length P)) of Inl e \<Rightarrow> Inl e | Inr header \<Rightarrow> Inr P)"
proof (cases "pack_i (int (length P))")
  case (Inl e)
  then show ?thesis by (simp add: framed_roundtrip_def framed_on_wire_eq)
next
  case (Inr header)
  from framed_read_back[OF this] Inr show ?thesis
    by (simp add: framed_roundtrip_def framed_on_wire_eq TMemoryBuffer_init_def Let_def)
qed

lemma calls_trans_write:
  "trans_write d t = (res, t1) \<Longrightarrow> calls t1 = calls t @ [CallWrite d res]"
  by (auto simp: trans_write_def split: prod.splits)

lemma calls_trans_flush:
  "trans_flush t = (res, t1) \<Longrightarrow> calls t1 = calls t @ [CallFlush res]"
  by (auto simp: trans_flush_def split: prod.splits)

lemma framed_flush_calls:
  fixes self :: "'s TFramedTransport"
  assumes "pack_i (int (length (getvalue (framed_wbuf self)))) = Inr header"
  shows "\<exists>res more. calls (framed_trans (snd (TFramedTransport_flush self)))
           = calls (framed_trans self) @ CallWrite (header @ getvalue (framed_wbuf self)) res # more
         \<and> (more = [] \<or> (\<exists>fr. more = [CallFlush fr]))"
proof -
  obtain r t1 where w: "trans_write (header @ getvalue (framed_wbuf self)) (framed_trans self) = (r, t1)"
    by (cases "trans_write (header @ getvalue (framed_wbuf self)) (framed_trans self)")
  note c1 = calls_trans_write[OF w]
  show ?thesis
  proof (cases r)
    case (Inl e)
    with w c1 assms show ?thesis by (simp add: TFramedTransport_flush_def Let_def)
  next
    case (Inr u)
    obtain r2 t2 where f: "trans_flush t1 = (r2, t2)" by (cases "trans_flush t1")
    note c2 = calls_trans_flush[OF f]
    with Inr w c1 f assms show ?thesis by (simp add: TFramedTransport_flush_def Let_def)
  qed
qed

lemma uint32_be_length: "length (uint32_be n) = 4"
  by (simp add: uint32_be_def)

lemma hello_reader_header:
  "trans_readAll 4 (framed_trans hello_reader) =
     (Inr (uint32_be 5),
      (framed_trans hello_reader)
        \<lparr>chan := \<lparr>buffer = \<lparr>getvalue = [0, 0, 0, 5] @ hello, pos = 4\<rparr>, closed = False\<rparr>,
         calls := [CallRead 4 (Inr [0, 0, 0, 5])]\<rparr>)"
  by (simp add: hello_reader_def framed_init_sel hello_def uint32_be_def trans_readAll_def
      readAll_def trans_read_def memory_transport_def TMemoryBuffer_read_def BytesIO_read_def
      BytesIO_new_def Let_def)

lemma hello_reader_payload:
  "trans_readAll (int 5)
     ((framed_trans hello_reader)
        \<lparr>chan := \<lparr>buffer = \<lparr>getvalue = [0, 0, 0, 5] @ hello, pos = 4\<rparr>, closed = False\<rparr>,
         calls := [CallRead 4 (Inr [0, 0, 0, 5])]\<rparr>) =
     (Inr hello,
      (framed_trans hello_reader)
        \<lparr>chan := \<lparr>buffer = \<lparr>getvalue = [0, 0, 0, 5] @ hello, pos = 9\<rparr>, closed = False\<rparr>,
         calls := [CallRead 4 (Inr [0, 0, 0, 5]), CallRead 5 (Inr hello)]\<rparr>)"
  by (simp add: hello_reader_def framed_init_sel hello_def trans_readAll_def
      readAll_def trans_read_def memory_transport_def TMemoryBuffer_read_def BytesIO_read_def
      BytesIO_new_def Let_def)

subsection \<open>C5: the length header\<close>

text \<open>
  C5, as amended. The header is \<open>pack("!i", n)\<close>, a signed 32-bit integer. For every
  payload length \<open>n\<close> below \<open>2^31\<close>: the header is four bytes and equals the big-endian
  unsigned 32-bit encoding of \<open>n\<close>; \<open>unpack\<close> decodes it to \<open>n\<close>; the one write that
  \<open>flush\<close> makes on the underlying transport is that header followed by the payload, so
  the header is fixed by the payload length alone; and \<open>readFrame\<close>, once it has read
  that header, reads \<open>n\<close> bytes for the payload.
\<close>

theorem frame_header_below_2G:
  fixes self :: "'s TFramedTransport"
  assumes "n < 2 ^ 31"
  shows "length (uint32_be n) = 4 \<and> pack_i (int n) = Inr (uint32_be n)
       \<and> unpack_i (uint32_be n) = Inr (int n)
       \<and> (length (getvalue (framed_wbuf self)) = n \<longrightarrow>
            (\<exists>res more. calls (framed_trans (snd (TFramedTransport_flush self)))
               = calls (framed_trans self)
                   @ CallWrite (uint32_be n @ getvalue (framed_wbuf self)) res # more
               \<and> (more = [] \<or> (\<exists>fr. more = [CallFlush fr]))))
       \<and> (trans_readAll 4 (framed_trans self) = (Inr (uint32_be n), t1) \<longrightarrow>
            TFramedTransport_readFrame self =
              (case trans_readAll (int n) t1 of
                 (Inl e, t2) \<Rightarrow> (Inl e, self\<lparr>framed_trans := t2\<rparr>)
               | (Inr payload, t2) \<Rightarrow>
                   (Inr (), self\<lparr>framed_trans := t2, framed_rbuf := BytesIO_new payload\<rparr>)))"
proof -
  note p = pack_i_uint32_be[OF assms]
  from unpack_pack_i[OF p] have u: "unpack_i (uint32_be n) = Inr (int n)" by simp
  have w: "length (getvalue (framed_wbuf self)) = n \<longrightarrow>
            (\<exists>res more. calls (framed_trans (snd (TFramedTransport_flush self)))
               = calls (framed_trans self)
                   @ CallWrite (uint32_be n @ getvalue (framed_wbuf self)) res # more
               \<and> (more = [] \<or> (\<exists>fr. more = [CallFlush fr])))"
    using framed_flush_calls[of self "uint32_be n"] p by blast
  have r: "trans_readAll 4 (framed_trans self) = (Inr (uint32_be n), t1) \<longrightarrow>
            TFramedTransport_readFrame self =
              (case trans_readAll (int n) t1 of
                 (Inl e, t2) \<Rightarrow> (Inl e, self\<lparr>framed_trans := t2\<rparr>)
               | (Inr payload, t2) \<Rightarrow>
                   (Inr (), self\<lparr>framed_trans := t2, framed_rbuf := BytesIO_new payload\<rparr>))"
    by (simp add: TFramedTransport_readFrame_def u split: prod.splits sum.splits)
  from uint32_be_length p u w r show ?thesis by blast
qed

theorem frame_header_below_2G_witness:
  "(5 :: nat) < 2 ^ 31 \<and> uint32_be 5 = [0, 0, 0, 5]
   \<and> length (getvalue (framed_wbuf hello_writer)) = 5
   \<and> (\<exists>res more. calls (framed_trans (snd (TFramedTransport_flush hello_writer)))
         = calls (framed_trans hello_writer) @ CallWrite (uint32_be 5 @ hello) res # more
         \<and> (more = [] \<or> (\<exists>fr. more = [CallFlush fr])))
   \<and> TFramedTransport_readFrame hello_reader =
       (Inr (),
        hello_reader
          \<lparr>framed_trans := (framed_trans hello_reader)
             \<lparr>chan := \<lparr>buffer = \<lparr>getvalue = [0, 0, 0, 5] @ hello, pos = 9\<rparr>, closed = False\<rparr>,
              calls := [CallRead 4 (Inr [0, 0, 0, 5]), CallRead 5 (Inr hello)]\<rparr>,
           framed_rbuf := BytesIO_new hello\<rparr>)"
proof -
  have five: "(5 :: nat) < 2 ^ 31" by simp
  have u: "uint32_be 5 = [0, 0, 0, 5]" by (simp add: uint32_be_def)
  have l: "length (getvalue (framed_wbuf hello_writer)) = 5"
    by (simp add: hello_writer_def hello_def)
  have g: "getvalue (framed_wbuf hello_writer) = hello"
    by (simp add: hello_writer_def)
  note w = frame_header_below_2G[where n = 5 and self = hello_writer, OF five,
      THEN conjunct2, THEN conjunct2, THEN conjunct2, THEN conjunct1, THEN mp, OF l]
  note r = frame_header_below_2G[where n = 5 and self = hello_reader, OF five,
      THEN conjunct2, THEN conjunct2, THEN conjunct2, THEN conjunct2, THEN mp,
      OF hello_reader_header]
  have r': "TFramedTransport_readFrame hello_reader =
       (Inr (),
        hello_reader
          \<lparr>framed_trans := (framed_trans hello_reader)
             \<lparr>chan := \<lparr>buffer = \<lparr>getvalue = [0, 0, 0, 5] @ hello, pos = 9\<rparr>, closed = False\<rparr>,
              calls := [CallRead 4 (Inr [0, 0, 0, 5]), CallRead 5 (Inr hello)]\<rparr>,
           framed_rbuf := BytesIO_new hello\<rparr>)"
    unfolding r hello_reader_payload by (simp only: prod.case sum.case)
  from five u l w[unfolded g] r' show ?thesis by blast
qed

text \<open>
  A payload of \<open>2^31\<close> bytes has a length that fits 32 bits, and \<open>flush\<close> raises
  \<open>struct.error\<close> with nothing written; the four bytes \<open>80 00 00 00\<close> that encode
  \<open>2^31\<close> as an unsigned integer are decoded by \<open>unpack\<close> to \<open>-2^31\<close>.
\<close>

theorem frame_header_signed_counterexample:
  "length (getvalue (framed_wbuf two_gib_writer)) = 2 ^ 31
   \<and> (2 :: nat) ^ 31 < 2 ^ 32
   \<and> TFramedTransport_flush two_gib_writer
       = (Inl StructError, two_gib_writer\<lparr>framed_wbuf := BytesIO_new []\<rparr>)
   \<and> uint32_be (2 ^ 31) = [128, 0, 0, 0]
   \<and> unpack_i [128, 0, 0, 0] = Inr (- 2147483648)"
proof -
  have l: "length (getvalue (framed_wbuf two_gib_writer)) = 2 ^ 31"
    by (simp add: two_gib_writer_def)
  have "pack_i (int (length (getvalue (framed_wbuf two_gib_writer)))) = Inl StructError"
    unfolding l by (rule pack_i_too_long) simp
  then have f: "TFramedTransport_flush two_gib_writer
       = (Inl StructError, two_gib_writer\<lparr>framed_wbuf := BytesIO_new []\<rparr>)"
    by (simp add: TFramedTransport_flush_def Let_def)
  from l f top_bit_header show ?thesis by simp
qed

subsection \<open>C3: the round trip through framing\<close>

text \<open>
  C3, as amended. For every payload \<open>P\<close> shorter than \<open>2^31\<close> bytes: after \<open>write(P)\<close>
  and \<open>flush()\<close> the bytes on the wire are the big-endian 32-bit encoding of \<open>len(P)\<close>
  followed by \<open>P\<close>, and a peer \<open>TFramedTransport\<close> over those bytes returns \<open>P\<close> from
  \<open>read(len(P))\<close>. For \<open>b"hello"\<close> the bytes on the wire are
  \<open>00 00 00 05 68 65 6C 6C 6F\<close>.
\<close>

theorem framed_roundtrip_below_2G:
  assumes "length P < 2 ^ 31"
  shows "framed_on_wire P = Inr (uint32_be (length P) @ P) \<and> framed_roundtrip P = Inr P"
  using pack_i_uint32_be[OF assms] by (simp add: framed_on_wire_eq framed_roundtrip_eq)

theorem framed_roundtrip_below_2G_witness:
  "length hello < 2 ^ 31
   \<and> framed_on_wire hello = Inr [0x00, 0x00, 0x00, 0x05, 0x68, 0x65, 0x6C, 0x6C, 0x6F]
   \<and> framed_roundtrip hello = Inr hello"
proof -
  have l: "length hello < 2 ^ 31" by (simp add: hello_def)
  have "uint32_be (length hello) @ hello = [0x00, 0x00, 0x00, 0x05, 0x68, 0x65, 0x6C, 0x6C, 0x6F]"
    by (simp add: hello_def uint32_be_def)
  with framed_roundtrip_below_2G[OF l] l show ?thesis by simp
qed

text \<open>
  For a payload of \<open>2^31\<close> zero bytes \<open>flush\<close> raises \<open>struct.error\<close>: nothing reaches
  the wire and nothing is read back.
\<close>

theorem framed_roundtrip_counterexample:
  "framed_on_wire (replicate (2 ^ 31) 0) = Inl StructError
   \<and> framed_roundtrip (replicate (2 ^ 31) 0) = Inl StructError"
proof -
  have "pack_i (int (length (replicate (2 ^ 31) (0 :: byte)))) = Inl StructError"
    by (rule pack_i_too_long) simp
  then show ?thesis by (simp only: framed_on_wire_eq framed_roundtrip_eq sum.case simp_thms)
qed

subsection \<open>C2: what \<open>write\<close> and \<open>flush\<close> do to the write buffer\<close>

text \<open>\<open>write\<close> of each of the three classes makes no call on the underlying transport.\<close>

lemma write_no_io:
  "buffered_trans (snd (TBufferedTransport_write buf bself)) = buffered_trans bself"
  "framed_trans (snd (TFramedTransport_write buf fself)) = framed_trans fself"
  "transport (snd (TSaslClientTransport_write buf sself)) = transport sself"
  by (simp_all add: TBufferedTransport_write_def TFramedTransport_write_def
      TSaslClientTransport_write_def split: prod.splits sum.splits)

text \<open>
  A write buffer starts empty and is only appended to, so its cursor is at its end; a
  \<open>write\<close> of bytes then appends them, and the buffer is the concatenation, in order,
  of what was written since it was last replaced.
\<close>

lemma BytesIO_write_appends:
  "pos b = length (getvalue b) \<Longrightarrow>
     BytesIO_write (PyBytes d) b
       = (Inr (), \<lparr>getvalue = getvalue b @ d, pos = length (getvalue b) + length d\<rparr>)"
  by (cases b) (simp add: BytesIO_write_def)

lemma writes_concatenate:
  "pos (buffered_wbuf bself) = length (getvalue (buffered_wbuf bself)) \<Longrightarrow>
     TBufferedTransport_write (PyBytes d) bself
       = (Inr (), bself\<lparr>buffered_wbuf :=
            \<lparr>getvalue = getvalue (buffered_wbuf bself) @ d,
             pos = length (getvalue (buffered_wbuf bself)) + length d\<rparr>\<rparr>)"
  "pos (framed_wbuf fself) = length (getvalue (framed_wbuf fself)) \<Longrightarrow>
     TFramedTransport_write (PyBytes d) fself
       = (Inr (), fself\<lparr>framed_wbuf :=
            \<lparr>getvalue = getvalue (framed_wbuf fself) @ d,
             pos = length (getvalue (framed_wbuf fself)) + length d\<rparr>\<rparr>)"
  "pos (sasl_wbuf sself) = length (getvalue (sasl_wbuf sself)) \<Longrightarrow>
     TSaslClientTransport_write (PyBytes d) sself
       = (Inr (), sself\<lparr>sasl_wbuf :=
            \<lparr>getvalue = getvalue (sasl_wbuf sself) @ d,
             pos = length (getvalue (sasl_wbuf sself)) + length d\<rparr>\<rparr>)"
  by (simp_all add: TBufferedTransport_write_def TFramedTransport_write_def
      TSaslClientTransport_write_def BytesIO_write_appends)

text \<open>
  \<open>TBufferedTransport.flush\<close> and \<open>TFramedTransport.flush\<close> leave an empty write buffer
  whatever the underlying transport does, and make one \<open>write\<close> on it, followed by its
  \<open>flush\<close> when the \<open>write\<close> succeeded.
\<close>

lemma buffered_flush_clears:
  "buffered_wbuf (snd (TBufferedTransport_flush self)) = BytesIO_new []"
  by (simp add: TBufferedTransport_flush_def Let_def split: prod.splits sum.splits)

lemma framed_flush_clears:
  "framed_wbuf (snd (TFramedTransport_flush self)) = BytesIO_new []"
  by (simp add: TFramedTransport_flush_def Let_def split: prod.splits sum.splits)

lemma buffered_flush_calls:
  fixes self :: "'s TBufferedTransport"
  shows "\<exists>res more. calls (buffered_trans (snd (TBufferedTransport_flush self)))
           = calls (buffered_trans self) @ CallWrite (getvalue (buffered_wbuf self)) res # more
         \<and> (more = [] \<or> (\<exists>fr. more = [CallFlush fr]))"
proof -
  obtain r t1 where w: "trans_write (getvalue (buffered_wbuf self)) (buffered_trans self) = (r, t1)"
    by (cases "trans_write (getvalue (buffered_wbuf self)) (buffered_trans self)")
  note c1 = calls_trans_write[OF w]
  show ?thesis
  proof (cases r)
    case (Inl e)
    with w c1 show ?thesis by (simp add: TBufferedTransport_flush_def Let_def)
  next
    case (Inr u)
    obtain r2 t2 where f: "trans_flush t1 = (r2, t2)" by (cases "trans_flush t1")
    note c2 = calls_trans_flush[OF f]
    with Inr w c1 f show ?thesis by (simp add: TBufferedTransport_flush_def Let_def)
  qed
qed

text \<open>
  C2 at \<open>TSaslClientTransport\<close>: three bytes are buffered and the underlying \<open>flush\<close>
  fails once. The first \<open>flush\<close> sends the frame and raises, and the write buffer still
  holds the three bytes; the next \<open>flush\<close> sends the same frame again.
\<close>

theorem sasl_flush_resends_after_failure:
  "fst (TSaslClientTransport_flush sasl_pending) = Inl (ChannelError ''timed out'')
   \<and> sasl_wbuf (snd (TSaslClientTransport_flush sasl_pending)) = \<lparr>getvalue = [1, 2, 3], pos = 3\<rparr>
   \<and> calls (transport (snd (TSaslClientTransport_flush sasl_pending)))
       = [CallWrite [0, 0, 0, 3, 1, 2, 3] (Inr ()), CallFlush (Inl (ChannelError ''timed out''))]
   \<and> fst (TSaslClientTransport_flush (snd (TSaslClientTransport_flush sasl_pending))) = Inr ()
   \<and> calls (transport (snd (TSaslClientTransport_flush (snd (TSaslClientTransport_flush sasl_pending)))))
       = [CallWrite [0, 0, 0, 3, 1, 2, 3] (Inr ()), CallFlush (Inl (ChannelError ''timed out'')),
          CallWrite [0, 0, 0, 3, 1, 2, 3] (Inr ()), CallFlush (Inr ())]"
  by (simp add: TSaslClientTransport_flush_def sasl_pending_def flaky_channel_def plain_sasl_def
      sasl_wrap_def pack_i_def be32_def trans_write_def trans_flush_def Let_def)

subsection \<open>C8: a \<open>write\<close> that fails\<close>

text \<open>\<open>TBufferedTransport.write\<close> leaves an empty write buffer when it raises.\<close>

lemma buffered_write_failure_resets:
  "fst (TBufferedTransport_write buf self) = Inl e \<Longrightarrow>
     buffered_wbuf (snd (TBufferedTransport_write buf self)) = BytesIO_new []"
  by (auto simp: TBufferedTransport_write_def split: prod.splits sum.splits)

text \<open>
  C8 at \<open>TFramedTransport\<close> and \<open>TSaslClientTransport\<close>: three bytes are buffered and
  \<open>write\<close> is given a \<open>str\<close>. \<open>BytesIO.write\<close> raises \<open>TypeError\<close>; \<open>TBufferedTransport\<close>
  resets its write buffer, the other two keep the three bytes, and the next \<open>flush\<close> of
  the \<open>TFramedTransport\<close> sends them as a frame.
\<close>

theorem framed_write_failure_keeps_buffer:
  "TBufferedTransport_write (PyStr ''abc'') buffered_half_built
     = (Inl TypeError, buffered_half_built\<lparr>buffered_wbuf := BytesIO_new []\<rparr>)
   \<and> TFramedTransport_write (PyStr ''abc'') framed_half_built = (Inl TypeError, framed_half_built)
   \<and> getvalue (framed_wbuf framed_half_built) = [1, 2, 3]
   \<and> calls (framed_trans (snd (TFramedTransport_flush framed_half_built)))
       = [CallWrite [0, 0, 0, 3, 1, 2, 3] (Inr ()), CallFlush (Inr ())]
   \<and> TSaslClientTransport_write (PyStr ''abc'') sasl_half_built = (Inl TypeError, sasl_half_built)
   \<and> getvalue (sasl_wbuf sasl_half_built) = [1, 2, 3]"
  by (simp add: TBufferedTransport_write_def TFramedTransport_write_def
      TSaslClientTransport_write_def BytesIO_write_def buffered_half_built_def
      framed_half_built_def sasl_half_built_def TFramedTransport_flush_def
      TFramedTransport_init_def TBufferedTransport_init_def pack_i_def be32_def
      trans_write_def trans_flush_def memory_transport_def write_buffer_def
      TMemoryBuffer_write_def TMemoryBuffer_flush_def BytesIO_new_def Let_def)

subsection \<open>C4: the handshake\<close>











lemmas handshake_defs =
  negotiating_def scripted_transport_def plain_sasl_def ok_then_error_def
  negotiating_reluctant_def reluctant_sasl_def ok_then_complete_def rejected_def
  open_prelude_def
  trans_isOpen_def trans_open_def trans_write_def trans_flush_def trans_read_def
  trans_readAll_def readAll_def send_sasl_msg_def recv_sasl_msg_def sasl_process_def
  sasl_complete_def bytes_ascii_def pack_BI_def be32_def from_be32_def
  START_def OK_def COMPLETE_def BytesIO_new_def







text \<open>
  \<open>open\<close> from its first statement against a peer that answers \<open>OK\<close> and then \<open>ERROR\<close>:
  \<open>START\<close> and \<open>OK\<close> are sent, the peer's \<open>OK\<close> is answered, its \<open>ERROR\<close> is read, and
  \<open>open\<close> raises with no call after the two reads of that message.
\<close>

lemma open_rejected_after_one_round:
  "map_option (\<lambda>r. (fst r, calls (transport (snd r))))
       (TSaslClientTransport_open (negotiating ok_then_error))
     = Some (Inl (TTransportException NOT_OPEN (BadStatus 4 (PyBytes [7, 7]))),
            [CallIsOpen (Inr True),
             CallWrite [1, 0, 0, 0, 5, 80, 76, 65, 73, 78] (Inr ()), CallFlush (Inr ()),
             CallWrite [2, 0, 0, 0, 1, 1] (Inr ()), CallFlush (Inr ()),
             CallRead 5 (Inr [2, 0, 0, 0, 1]), CallRead 1 (Inr [9]),
             CallWrite [2, 0, 0, 0, 1, 1] (Inr ()), CallFlush (Inr ()),
             CallRead 5 (Inr [4, 0, 0, 0, 2]), CallRead 2 (Inr [7, 7])])"
  apply (simp add: TSaslClientTransport_open_def handshake_defs)
  apply (subst open_loop.simps)
  apply (simp add: handshake_defs)
  apply (subst open_loop.simps)
  apply (simp add: handshake_defs)
  done

subsection \<open>C7: \<open>cstringio_refill\<close>\<close>























text \<open>An exception of the underlying \<open>read\<close> passes through the refill unchanged.\<close>

lemma buffered_refill_propagates:
  "fst (TBufferedTransport_cstringio_refill [] 1 (TBufferedTransport_init timing_out DEFAULT_BUFFER))
     = Inl (ChannelError ''timed out'')"
  by (simp add: TBufferedTransport_cstringio_refill_def TBufferedTransport_init_def
      DEFAULT_BUFFER_def timing_out_def trans_read_def)






subsection \<open>C7 on a finite channel\<close>

text \<open>
  Over a \<open>TMemoryBuffer\<close> the channel is finite: a read that returns bytes leaves
  fewer unread, so the loop over frames ends, with a buffer or with an exception.
\<close>

lemma memory_read_progress:
  assumes "read_impl t = TMemoryBuffer_read" "trans_read k t = (r, t')"
  shows "read_impl t' = TMemoryBuffer_read \<and> unread t' \<le> unread t
         \<and> (\<forall>d. r = Inr d \<and> d \<noteq> [] \<longrightarrow> unread t' < unread t)"
  using assms
  by (auto simp: trans_read_def TMemoryBuffer_read_def BytesIO_read_def unread_def Let_def
      split: if_splits)

lemma memory_readAll_loop_progress:
  fixes t :: "TMemoryBuffer transport"
  shows "read_impl t = TMemoryBuffer_read \<Longrightarrow> readAll_loop trans_read sz buff have t = (r, t') \<Longrightarrow>
     read_impl t' = TMemoryBuffer_read \<and> unread t' \<le> unread t
     \<and> (\<forall>d. r = Inr d \<and> have < sz \<longrightarrow> unread t' < unread t)"
proof (induction "trans_read :: int \<Rightarrow> TMemoryBuffer transport \<Rightarrow> (bytes, TMemoryBuffer transport) outcome"
    sz buff "have" t arbitrary: r t' rule: readAll_loop.induct)
  case (1 sz buff "have" s)
  show ?case
  proof (cases "have < sz")
    case False
    with "1.prems" show ?thesis by auto
  next
    case True
    obtain res s1 where rd: "trans_read (sz - have) s = (res, s1)"
      by (cases "trans_read (sz - have) s")
    note pr = memory_read_progress[OF "1.prems"(1) rd]
    show ?thesis
    proof (cases res)
      case (Inl e)
      with True rd "1.prems" have "r = Inl e" "t' = s1" by auto
      with pr show ?thesis by simp
    next
      case (Inr chunk)
      show ?thesis
      proof (cases "chunk = []")
        case True
        with Inr \<open>have < sz\<close> rd "1.prems" have "r = Inl EOFError" "t' = s1" by auto
        with pr show ?thesis by simp
      next
        case False
        with Inr \<open>have < sz\<close> rd "1.prems"
        have rec: "readAll_loop trans_read sz (buff @ chunk) (have + int (length chunk)) s1 = (r, t')"
          by auto
        from pr have i1: "read_impl s1 = TMemoryBuffer_read" by simp
        from pr Inr False have "unread s1 < unread s" by simp
        with "1.hyps"[OF \<open>have < sz\<close> rd[symmetric] _ _ i1 rec] Inr False
        show ?thesis by auto
      qed
    qed
  qed
qed

lemma memory_readFrame_progress:
  fixes self :: "TMemoryBuffer TFramedTransport"
  assumes "read_impl (framed_trans self) = TMemoryBuffer_read"
    and "TFramedTransport_readFrame self = (Inr u, self1)"
  shows "read_impl (framed_trans self1) = TMemoryBuffer_read
         \<and> unread (framed_trans self1) < unread (framed_trans self)"
proof -
  from readFrame_fresh[OF assms(2)] obtain header t1 n payload t2 where
    h: "trans_readAll 4 (framed_trans self) = (Inr header, t1)"
    and p: "trans_readAll n t1 = (Inr payload, t2)"
    and s: "self1 = self\<lparr>framed_trans := t2, framed_rbuf := BytesIO_new payload\<rparr>" by blast
  from memory_readAll_loop_progress[OF assms(1), of 4 "[]" 0 "Inr header" t1] h
  have 1: "read_impl t1 = TMemoryBuffer_read" "unread t1 < unread (framed_trans self)"
    by (simp_all add: trans_readAll_def readAll_def)
  from memory_readAll_loop_progress[OF 1(1), of n "[]" 0 "Inr payload" t2] p
  have 2: "read_impl t2 = TMemoryBuffer_read" "unread t2 \<le> unread t1"
    by (simp_all add: trans_readAll_def readAll_def)
  from 1 2 s show ?thesis by simp
qed

lemma framed_refill_returns_on_memory:
  fixes self :: "TMemoryBuffer TFramedTransport"
  assumes "read_impl (framed_trans self) = TMemoryBuffer_read"
  shows "\<exists>y. TFramedTransport_cstringio_refill prefix reqlen self = Some y"
proof -
  have "\<exists>y. framed_refill_loop prefix reqlen self = Some y"
    using assms
  proof (induction "unread (framed_trans self)" arbitrary: self prefix rule: less_induct)
    case less
    show ?case
    proof (cases "int (length prefix) < reqlen")
      case False
      then show ?thesis by (subst framed_refill_loop.simps) simp
    next
      case True
      obtain r self1 where rf: "TFramedTransport_readFrame self = (r, self1)"
        by (cases "TFramedTransport_readFrame self")
      show ?thesis
      proof (cases r)
        case (Inl e)
        with True rf show ?thesis by (subst framed_refill_loop.simps) simp
      next
        case (Inr u)
        from memory_readFrame_progress[OF less.prems rf[unfolded Inr]]
        have "read_impl (framed_trans self1) = TMemoryBuffer_read"
          "unread (framed_trans self1) < unread (framed_trans self)" by simp_all
        from less.hyps[OF this(2) this(1)]
        obtain y where "framed_refill_loop (prefix @ getvalue (framed_rbuf self1)) reqlen self1 = Some y"
          by blast
        with True rf Inr show ?thesis by (subst framed_refill_loop.simps) simp
      qed
    qed
  qed
  then obtain y where "framed_refill_loop prefix reqlen self = Some y" by blast
  then show ?thesis
    by (cases y) (auto simp: TFramedTransport_cstringio_refill_def split: sum.splits)
qed

end
